theory Spec2Isabelle
  imports Complex_Main "HOL-Library.AList"
begin

section \<open>Values, documents and collections\<close>

text \<open>
  The server of \<^verbatim>\<open>src/index.js\<close> handles JSON request bodies and MongoDB documents.
  A JavaScript value is a \<open>jsval\<close>. Strings are lists of 8-bit code units; a number is a
  real (JSON has neither NaN nor infinities); \<open>JDate None\<close> is the Invalid Date;
  \<open>JOid h\<close> is a driver ObjectId whose hexadecimal form is \<open>h\<close>.
\<close>

datatype jsval =
    JUndefined
  | JNull
  | JBool bool
  | JNum real
  | JStr string
  | JDate "int option"
  | JOid string
  | JArr "jsval list"
  | JObj "(string \<times> jsval) list"

type_synonym doc = "(string \<times> jsval) list"

text \<open>Property access \<^verbatim>\<open>obj[k]\<close>: a missing property reads as \<^verbatim>\<open>undefined\<close>.\<close>

definition getf :: "doc \<Rightarrow> string \<Rightarrow> jsval" where
  "getf d k = (case map_of d k of None \<Rightarrow> JUndefined | Some v \<Rightarrow> v)"

text \<open>JavaScript truthiness, \<^verbatim>\<open>===\<close> and \<^verbatim>\<open>typeof v === "string"\<close>. Two objects
  (dates, ObjectIds, arrays, plain objects) read from different places are never the
  same reference, so \<^verbatim>\<open>===\<close> is false on them.\<close>

fun truthy :: "jsval \<Rightarrow> bool" where
  "truthy JUndefined = False"
| "truthy JNull = False"
| "truthy (JBool b) = b"
| "truthy (JNum n) = (n \<noteq> 0)"
| "truthy (JStr s) = (s \<noteq> [])"
| "truthy _ = True"

fun strict_eq :: "jsval \<Rightarrow> jsval \<Rightarrow> bool" where
  "strict_eq JUndefined JUndefined = True"
| "strict_eq JNull JNull = True"
| "strict_eq (JBool a) (JBool b) = (a = b)"
| "strict_eq (JNum a) (JNum b) = (a = b)"
| "strict_eq (JStr a) (JStr b) = (a = b)"
| "strict_eq _ _ = False"

fun is_string :: "jsval \<Rightarrow> bool" where
  "is_string (JStr s) = True"
| "is_string _ = False"

text \<open>\<^verbatim>\<open>a || b\<close> on values.\<close>

definition js_or :: "jsval \<Rightarrow> jsval \<Rightarrow> jsval" where
  "js_or a b = (if truthy a then a else b)"

text \<open>The driver writes an \<^verbatim>\<open>undefined\<close> field as \<^verbatim>\<open>null\<close>.\<close>

definition nul :: "jsval \<Rightarrow> jsval" where
  "nul v = (if v = JUndefined then JNull else v)"

text \<open>A document identifier is a driver ObjectId or a legacy string.\<close>

datatype docid = ObjId string | StrId string

fun id_val :: "docid \<Rightarrow> jsval" where
  "id_val (ObjId h) = JOid h"
| "id_val (StrId s) = JStr s"

text \<open>A collection lists its documents in natural order, each with its \<^verbatim>\<open>_id\<close>.\<close>

type_synonym entry = "docid \<times> doc"
type_synonym coll = "entry list"

record store =
  users :: coll
  items :: coll
  recoveries :: coll

text \<open>The query \<^verbatim>\<open>{field: q}\<close> on a scalar: equality, where a missing field and
  \<^verbatim>\<open>null\<close> are alike.\<close>

definition matches :: "jsval \<Rightarrow> jsval \<Rightarrow> bool" where
  "matches stored q = (nul stored = nul q)"

definition findOne :: "(entry \<Rightarrow> bool) \<Rightarrow> coll \<Rightarrow> entry option" where
  "findOne p c = List.find p c"

text \<open>\<^verbatim>\<open>insertOne\<close>: the unique index on \<^verbatim>\<open>_id\<close> refuses a duplicate key (\<open>None\<close>).\<close>

definition insertOne :: "docid \<Rightarrow> doc \<Rightarrow> coll \<Rightarrow> coll option" where
  "insertOne i d c = (if i \<in> set (map fst c) then None else Some (c @ [(i, d)]))"

text \<open>\<^verbatim>\<open>$set\<close>: every listed field is written, the others are kept.\<close>

definition set_fields :: "doc \<Rightarrow> doc \<Rightarrow> doc" where
  "set_fields upd d = foldr (\<lambda>kv. AList.update (fst kv) (nul (snd kv))) upd d"

fun updateOne :: "(entry \<Rightarrow> bool) \<Rightarrow> (doc \<Rightarrow> doc) \<Rightarrow> coll \<Rightarrow> coll" where
  "updateOne p f [] = []"
| "updateOne p f (e # es) =
     (if p e then (fst e, f (snd e)) # es else e # updateOne p f es)"

definition matchedCount :: "(entry \<Rightarrow> bool) \<Rightarrow> coll \<Rightarrow> nat" where
  "matchedCount p c = (if list_ex p c then 1 else 0)"

fun deleteOne :: "(entry \<Rightarrow> bool) \<Rightarrow> coll \<Rightarrow> coll" where
  "deleteOne p [] = []"
| "deleteOne p (e # es) = (if p e then es else e # deleteOne p es)"

definition deleteMany :: "(entry \<Rightarrow> bool) \<Rightarrow> coll \<Rightarrow> coll" where
  "deleteMany p c = filter (\<lambda>e. \<not> p e) c"

section \<open>The runtime around the handlers\<close>

text \<open>
  What the handlers call but the repository does not define is a parameter:
  \<^item> \<open>NODE_ENV\<close>: \<^verbatim>\<open>process.env.NODE_ENV\<close>;
  \<^item> \<open>oid_hex s\<close>: the hexadecimal form of \<^verbatim>\<open>new ObjectId(s)\<close> for a string \<open>s\<close>, \<open>None\<close>
    where the constructor throws, which is where \<^verbatim>\<open>ObjectId.isValid(s)\<close> is false;
  \<^item> \<open>oid_other v\<close>: the same for a value that is neither a string nor an ObjectId;
  \<^item> \<open>new_Date v\<close>: the time value of \<^verbatim>\<open>new Date(v)\<close>, \<open>None\<close> for the Invalid Date;
  \<^item> \<open>Date_parse v\<close>: \<^verbatim>\<open>Date.parse(v)\<close>, \<open>None\<close> for NaN;
  \<^item> \<open>other_toString v\<close>: \<^verbatim>\<open>v.toString()\<close> for a value that is neither a string nor an
    ObjectId;
  \<^item> \<open>verifyIdToken t\<close>: the claims of the external identity token \<open>t\<close>, \<open>None\<close> where
    the verification throws;
  \<^item> \<open>jwt_verify t\<close>: the claims of the session token \<open>t\<close>, \<open>None\<close> where \<^verbatim>\<open>jwt.verify\<close>
    throws.
\<close>

record env =
  NODE_ENV :: "string option"
  oid_hex :: "string \<Rightarrow> string option"
  oid_other :: "jsval \<Rightarrow> string option"
  new_Date :: "jsval \<Rightarrow> int option"
  Date_parse :: "jsval \<Rightarrow> int option"
  other_toString :: "jsval \<Rightarrow> string"
  verifyIdToken :: "string \<Rightarrow> doc option"
  jwt_verify :: "string \<Rightarrow> doc option"

text \<open>
  What one request draws from outside: \<open>clock n\<close> is the value of the \<open>n\<close>-th
  \<^verbatim>\<open>new Date()\<close> of the handler, \<open>fresh\<close> the ObjectId the driver generates for an
  inserted document, \<open>commit\<close> whether the transaction of the handler commits (when it
  does not, nothing of it is written and the handler answers 500). A database call
  outside a transaction is taken to answer; the one failure it has here is the duplicate
  key of an insertion.
\<close>

record ctx =
  clock :: "nat \<Rightarrow> int"
  fresh :: string
  commit :: bool

definition ObjectId_isValid :: "env \<Rightarrow> string \<Rightarrow> bool" where
  "ObjectId_isValid e s = (oid_hex e s \<noteq> None)"

definition new_ObjectId :: "env \<Rightarrow> jsval \<Rightarrow> docid option" where
  "new_ObjectId e v =
     (case v of
        JOid h \<Rightarrow> Some (ObjId h)
      | JStr s \<Rightarrow> map_option ObjId (oid_hex e s)
      | _ \<Rightarrow> map_option ObjId (oid_other e v))"

definition js_toString :: "env \<Rightarrow> jsval \<Rightarrow> string" where
  "js_toString e v =
     (case v of JStr s \<Rightarrow> s | JOid h \<Rightarrow> h | _ \<Rightarrow> other_toString e v)"

text \<open>\<^verbatim>\<open>s.split(c)\<close> for a one-character separator, and \<^verbatim>\<open>s.trim()\<close>.\<close>

fun js_split :: "char \<Rightarrow> string \<Rightarrow> string list" where
  "js_split c [] = [[]]"
| "js_split c (x # xs) =
     (if x = c then [] # js_split c xs
      else (case js_split c xs of [] \<Rightarrow> [[x]] | p # ps \<Rightarrow> (x # p) # ps))"

definition js_space :: "char \<Rightarrow> bool" where
  "js_space c = (c \<in> set [CHR 0x09, CHR 0x0A, CHR 0x0B, CHR 0x0C, CHR 0x0D, CHR 0x20, CHR 0xA0])"

definition trim :: "string \<Rightarrow> string" where
  "trim s = rev (dropWhile js_space (rev (dropWhile js_space s)))"

text \<open>A response: the status code and the members of the JSON body. The \<^verbatim>\<open>error\<close>
  member of a 500 answer, which repeats the text of the caught exception, is left out.\<close>

datatype reply = Reply (code: nat) (json: doc)

definition msg :: "nat \<Rightarrow> string \<Rightarrow> reply" where
  "msg c m = Reply c [(''message'', JStr m)]"

section \<open>The handlers\<close>

subsection \<open>validateItemData\<close>

definition validateItemData :: "env \<Rightarrow> doc \<Rightarrow> bool" where
  "validateItemData e data =
     (let postType = getf data ''postType''; thumbnail = getf data ''thumbnail'';
          title = getf data ''title''; category = getf data ''category'';
          location = getf data ''location''; date = getf data ''date''
      in if \<not> truthy postType
            \<or> (\<not> strict_eq postType (JStr ''lost'') \<and> \<not> strict_eq postType (JStr ''found''))
            \<or> \<not> truthy thumbnail \<or> \<not> is_string thumbnail
            \<or> \<not> truthy title \<or> \<not> is_string title
            \<or> \<not> truthy category \<or> \<not> is_string category
            \<or> \<not> truthy location \<or> \<not> is_string location
            \<or> \<not> truthy date \<or> Date_parse e date = None
         then False else True)"

subsection \<open>protect\<close>

record request =
  authorization :: "string option"
  cookie_token :: "string option"

text \<open>\<^verbatim>\<open>authorization.split(" ")[1]\<close>; \<open>None\<close> is \<^verbatim>\<open>undefined\<close>, which the
  verification refuses.\<close>

definition bearer_token :: "string \<Rightarrow> string option" where
  "bearer_token a = (case js_split CHR '' '' a of _ # token # _ \<Rightarrow> Some token | _ \<Rightarrow> None)"

text \<open>Step 1 of \<^verbatim>\<open>protect\<close>: the bearer token of the external identity provider.
  \<open>None\<close> is every way of reaching step 2: no such header, or an exception in the
  \<^verbatim>\<open>try\<close> block.\<close>

definition protect_firebase :: "env \<Rightarrow> ctx \<Rightarrow> request \<Rightarrow> store \<Rightarrow> (entry \<times> store) option" where
  "protect_firebase e c req st =
     (case authorization req of
        None \<Rightarrow> None
      | Some a \<Rightarrow>
          if a \<noteq> [] \<and> take 7 a = ''Bearer '' then
            (case bearer_token a of
               Some token \<Rightarrow>
                 (case verifyIdToken e token of
                    None \<Rightarrow> None
                  | Some decoded \<Rightarrow>
                      (case findOne (\<lambda>u. matches (getf (snd u) ''email'') (getf decoded ''email'')) (users st) of
                         Some user \<Rightarrow> Some (user, st)
                       | None \<Rightarrow>
                           (let newUser =
                                  [(''name'', js_or (getf decoded ''name'') (JStr ''Firebase User'')),
                                   (''email'', getf decoded ''email''),
                                   (''uid'', getf decoded ''uid''),
                                   (''isAdmin'', JBool False),
                                   (''photoURL'', js_or (getf decoded ''picture'') (JStr '''')),
                                   (''createdAt'', JDate (Some (clock c 0))),
                                   (''updatedAt'', JDate (Some (clock c 1)))]
                            in (case insertOne (ObjId (fresh c)) (map (\<lambda>kv. (fst kv, nul (snd kv))) newUser) (users st) of
                                  None \<Rightarrow> None
                                | Some us \<Rightarrow> Some ((ObjId (fresh c), newUser), st\<lparr>users := us\<rparr>)))))
             | None \<Rightarrow> None)
          else None)"

text \<open>Step 2 of \<^verbatim>\<open>protect\<close>: the session token of the cookie.\<close>

definition protect_jwt :: "env \<Rightarrow> request \<Rightarrow> store \<Rightarrow> reply + entry" where
  "protect_jwt e req st =
     (case cookie_token req of
        None \<Rightarrow> Inl (msg 401 ''Not authorized, no token'')
      | Some token \<Rightarrow>
          if token = [] then Inl (msg 401 ''Not authorized, no token'')
          else
            (case jwt_verify e token of
               None \<Rightarrow> Inl (msg 401 ''Not authorized, token failed'')
             | Some decoded \<Rightarrow>
                 if truthy (getf decoded ''userId'') then
                   (case new_ObjectId e (getf decoded ''userId'') of
                      None \<Rightarrow> Inl (msg 401 ''Not authorized, token failed'')
                    | Some oid \<Rightarrow>
                        (case findOne (\<lambda>u. fst u = oid) (users st) of
                           None \<Rightarrow> Inl (msg 404 ''User not found'')
                         | Some user \<Rightarrow> Inr user))
                 else if truthy (getf decoded ''uid'') then
                   (case findOne (\<lambda>u. matches (getf (snd u) ''uid'') (getf decoded ''uid'')) (users st) of
                      None \<Rightarrow> Inl (msg 404 ''User not found'')
                    | Some user \<Rightarrow> Inr user)
                 else Inl (msg 404 ''User not found'')))"

definition protect :: "env \<Rightarrow> ctx \<Rightarrow> request \<Rightarrow> store \<Rightarrow> (reply + entry) \<times> store" where
  "protect e c req st =
     (case protect_firebase e c req st of
        Some (user, st') \<Rightarrow> (Inr user, st')
      | None \<Rightarrow> (protect_jwt e req st, st))"

subsection \<open>Looking an item up by the identifier of the path\<close>

text \<open>\<^verbatim>\<open>GET\<close>, \<^verbatim>\<open>POST .../recover\<close> and \<^verbatim>\<open>DELETE\<close>: one query, on either form of the
  identifier when it is a valid ObjectId, on the string alone otherwise. When both
  forms are stored, the first in natural order is the one returned here.\<close>

definition find_item :: "env \<Rightarrow> string \<Rightarrow> coll \<Rightarrow> entry option" where
  "find_item e ident c =
     (if ObjectId_isValid e ident
      then findOne (\<lambda>x. Some (fst x) = new_ObjectId e (JStr ident) \<or> fst x = StrId ident) c
      else findOne (\<lambda>x. fst x = StrId ident) c)"

text \<open>\<^verbatim>\<open>PATCH /inventory/:id\<close>: by ObjectId first, by string when that finds nothing.\<close>

definition find_item_patch :: "env \<Rightarrow> string \<Rightarrow> coll \<Rightarrow> entry option" where
  "find_item_patch e ident c =
     (case (if ObjectId_isValid e ident
            then findOne (\<lambda>x. Some (fst x) = new_ObjectId e (JStr ident)) c else None) of
        Some x \<Rightarrow> Some x
      | None \<Rightarrow> findOne (\<lambda>x. fst x = StrId ident) c)"

subsection \<open>POST /inventory\<close>

definition post_inventory :: "env \<Rightarrow> ctx \<Rightarrow> entry \<Rightarrow> doc \<Rightarrow> store \<Rightarrow> reply \<times> store" where
  "post_inventory e c user body st =
     (if \<not> validateItemData e body then (msg 400 ''Invalid item data'', st)
      else
        (let newItem =
               [(''postType'', getf body ''postType''),
                (''thumbnail'', getf body ''thumbnail''),
                (''title'', getf body ''title''),
                (''description'', js_or (getf body ''description'') (JStr '''')),
                (''category'', getf body ''category''),
                (''location'', getf body ''location''),
                (''date'', JDate (new_Date e (getf body ''date''))),
                (''contactName'', nul (getf (snd user) ''name'')),
                (''contactEmail'', nul (getf (snd user) ''email'')),
                (''status'', JStr ''not-recovered''),
                (''createdAt'', JDate (Some (clock c 0))),
                (''updatedAt'', JDate (Some (clock c 1)))]
         in (case insertOne (ObjId (fresh c)) newItem (items st) of
               None \<Rightarrow> (msg 500 ''Server error'', st)
             | Some is \<Rightarrow>
                 (Reply 201 [(''message'', JStr ''Item added successfully''), (''itemId'', JOid (fresh c))],
                  st\<lparr>items := is\<rparr>))))"

subsection \<open>GET /inventory/:id\<close>

definition get_inventory :: "env \<Rightarrow> string \<Rightarrow> store \<Rightarrow> reply" where
  "get_inventory e ident st =
     (case find_item e ident (items st) of
        None \<Rightarrow> msg 404 ''Item not found''
      | Some item \<Rightarrow> Reply 200 ((''_id'', id_val (fst item)) # snd item))"

subsection \<open>PATCH /inventory/:id\<close>

definition allowedFields :: "string list" where
  "allowedFields = [''postType'', ''title'', ''description'', ''category'', ''location'',
                    ''date'', ''thumbnail'', ''status'']"

definition updateData :: "env \<Rightarrow> ctx \<Rightarrow> doc \<Rightarrow> doc" where
  "updateData e c body =
     concat (map (\<lambda>field.
        if getf body field \<noteq> JUndefined
        then [(field, if field = ''date'' then JDate (new_Date e (getf body ''date''))
                      else getf body field)]
        else []) allowedFields)
     @ [(''updatedAt'', JDate (Some (clock c 0)))]"

text \<open>\<^verbatim>\<open>id.split(":")[0].trim()\<close>\<close>

definition clean_id :: "string \<Rightarrow> string" where
  "clean_id ident = trim (case js_split CHR '':'' ident of [] \<Rightarrow> [] | p # _ \<Rightarrow> p)"

definition patch_inventory :: "env \<Rightarrow> ctx \<Rightarrow> entry \<Rightarrow> string \<Rightarrow> doc \<Rightarrow> store \<Rightarrow> reply \<times> store" where
  "patch_inventory e c user ident0 body st =
     (case find_item_patch e (clean_id ident0) (items st) of
        None \<Rightarrow> (msg 404 ''Item not found'', st)
      | Some item \<Rightarrow>
          if NODE_ENV e \<noteq> Some ''development''
             \<and> \<not> strict_eq (getf (snd item) ''contactEmail'') (getf (snd user) ''email'')
          then (msg 403 ''Not authorized'', st)
          else
            (let upd = updateData e c body;
                 modifiedCount = (if set_fields upd (snd item) = snd item then 0 else 1)
             in (Reply 200 [(''message'', JStr ''Item updated successfully''),
                            (''modifiedCount'', JNum modifiedCount)],
                 st\<lparr>items := updateOne (\<lambda>x. fst x = fst item) (set_fields upd) (items st)\<rparr>)))"

subsection \<open>POST /inventory/:id/recover\<close>

definition recoveryData :: "env \<Rightarrow> ctx \<Rightarrow> entry \<Rightarrow> entry \<Rightarrow> doc \<Rightarrow> docid \<Rightarrow> int \<Rightarrow> doc" where
  "recoveryData e c user item body userId recDate =
     [(''itemId'', id_val (fst item)),
      (''originalPostType'', nul (getf (snd item) ''postType'')),
      (''originalItemData'', JObj
         [(''title'', nul (getf (snd item) ''title'')),
          (''description'', nul (getf (snd item) ''description'')),
          (''category'', nul (getf (snd item) ''category'')),
          (''location'', nul (getf (snd item) ''location'')),
          (''date'', nul (getf (snd item) ''date'')),
          (''thumbnail'', nul (getf (snd item) ''thumbnail''))]),
      (''originalOwner'', JObj
         [(''name'', nul (getf (snd item) ''contactName'')),
          (''email'', nul (getf (snd item) ''contactEmail''))]),
      (''recoveredBy'', JObj
         [(''userId'', id_val userId),
          (''name'', nul (getf (snd user) ''name'')),
          (''email'', nul (getf (snd user) ''email'')),
          (''photoURL'', js_or (getf (snd user) ''photoURL'') JNull)]),
      (''recoveredLocation'', getf body ''recoveredLocation''),
      (''recoveredDate'', JDate (Some recDate)),
      (''notes'', js_or (getf body ''notes'') (JStr '''')),
      (''recoveryStatus'', JStr ''pending''),
      (''createdAt'', JDate (Some (clock c 0)))]"

definition post_recover :: "env \<Rightarrow> ctx \<Rightarrow> entry \<Rightarrow> string \<Rightarrow> doc \<Rightarrow> store \<Rightarrow> reply \<times> store" where
  "post_recover e c user ident body st =
     (case find_item e ident (items st) of
        None \<Rightarrow> (msg 404 ''Item not found'', st)
      | Some item \<Rightarrow>
          if \<not> truthy (getf body ''recoveredLocation'') \<or> \<not> truthy (getf body ''recoveredDate'')
          then (msg 400 ''Missing required fields'', st)
          else if strict_eq (getf (snd user) ''email'') (getf (snd item) ''contactEmail'')
          then (msg 400 ''You cannot recover your own item'', st)
          else
            (case new_Date e (getf body ''recoveredDate'') of
               None \<Rightarrow> (msg 400 ''Invalid recovery date'', st)
             | Some recDate \<Rightarrow>
                 (case new_ObjectId e (id_val (fst user)) of
                    None \<Rightarrow> (msg 500 ''Server error'', st)
                  | Some userId \<Rightarrow>
                      (let rd = recoveryData e c user item body userId recDate in
                       if \<not> commit c then (msg 500 ''Server error'', st)
                       else
                         (case insertOne (ObjId (fresh c)) rd (recoveries st) of
                            None \<Rightarrow> (msg 500 ''Server error'', st)
                          | Some rs \<Rightarrow>
                              (Reply 200 [(''message'', JStr ''Item recovery recorded successfully''),
                                          (''recovery'', JObj (rd @ [(''_id'', JOid (fresh c))]))],
                               st\<lparr>recoveries := rs,
                                  items := updateOne (\<lambda>x. fst x = fst item)
                                    (set_fields [(''status'', JStr ''recovered''),
                                                 (''updatedAt'', JDate (Some (clock c 1)))])
                                    (items st)\<rparr>))))))"

subsection \<open>PATCH /recoveries/:id\<close>

definition recoveryAllowedFields :: "string list" where
  "recoveryAllowedFields = [''recoveryStatus'', ''notes'', ''recoveredLocation'', ''recoveredDate'']"

definition filteredData :: "doc \<Rightarrow> doc" where
  "filteredData body = filter (\<lambda>kv. fst kv \<in> set recoveryAllowedFields) body"

definition patch_recoveries :: "env \<Rightarrow> string \<Rightarrow> doc \<Rightarrow> store \<Rightarrow> reply \<times> store" where
  "patch_recoveries e ident body st =
     (if \<not> ObjectId_isValid e ident then (msg 400 ''Invalid recovery ID'', st)
      else if filteredData body = [] then (msg 400 ''No valid fields to update'', st)
      else
        (let q = (\<lambda>x. Some (fst x) = new_ObjectId e (JStr ident));
             rs = updateOne q (set_fields (filteredData body)) (recoveries st)
         in if matchedCount q (recoveries st) = 0 then (msg 404 ''Recovery not found'', st)
            else
              (Reply 200 [(''message'', JStr ''Recovery updated successfully''),
                          (''recovery'', (case findOne q rs of
                                            None \<Rightarrow> JNull
                                          | Some r \<Rightarrow> JObj ((''_id'', id_val (fst r)) # snd r)))],
               st\<lparr>recoveries := rs\<rparr>)))"

subsection \<open>DELETE /inventory/:id\<close>

definition delete_inventory :: "env \<Rightarrow> ctx \<Rightarrow> entry \<Rightarrow> string \<Rightarrow> store \<Rightarrow> reply \<times> store" where
  "delete_inventory e c user ident st =
     (case find_item e ident (items st) of
        None \<Rightarrow> (msg 404 ''Item not found'', st)
      | Some item \<Rightarrow>
          if (\<not> truthy (getf (snd item) ''userId'')
               \<or> js_toString e (getf (snd item) ''userId'') \<noteq> js_toString e (id_val (fst user)))
             \<and> \<not> strict_eq (getf (snd item) ''contactEmail'') (getf (snd user) ''email'')
          then (msg 403 ''Not authorized to delete this item'', st)
          else if \<not> commit c then (msg 500 ''Server error'', st)
          else
            (msg 200 ''Item deleted successfully'',
             st\<lparr>items := deleteOne (\<lambda>x. fst x = fst item) (items st),
                recoveries := deleteMany (\<lambda>r. matches (getf (snd r) ''itemId'') (id_val (fst item)))
                                (recoveries st)\<rparr>))"

section \<open>Sequences of calls and the consistency of status and recoveries\<close>

text \<open>A recovery references an item when its \<^verbatim>\<open>itemId\<close> is the \<^verbatim>\<open>_id\<close> of the item:
  the query of the cascade in \<^verbatim>\<open>DELETE /inventory/:id\<close>.\<close>

definition references :: "entry \<Rightarrow> docid \<Rightarrow> bool" where
  "references r i = matches (getf (snd r) ''itemId'') (id_val i)"

definition is_recovered :: "entry \<Rightarrow> bool" where
  "is_recovered i = (getf (snd i) ''status'' = JStr ''recovered'')"

definition status_iff_recovery :: "store \<Rightarrow> bool" where
  "status_iff_recovery st =
     list_all (\<lambda>i. is_recovered i = list_ex (\<lambda>r. references r (fst i)) (recoveries st)) (items st)"

text \<open>The unique index of the items, and no recovery without its item.\<close>

definition unique_ids :: "coll \<Rightarrow> bool" where
  "unique_ids c = distinct (map fst c)"

definition no_orphan :: "store \<Rightarrow> bool" where
  "no_orphan st =
     list_all (\<lambda>r. list_ex (\<lambda>i. references r (fst i)) (items st)) (recoveries st)"

definition consistent :: "store \<Rightarrow> bool" where
  "consistent st = (unique_ids (items st) \<and> no_orphan st \<and> status_iff_recovery st)"

datatype call =
    Create ctx entry doc
  | Update ctx entry string doc
  | Recover ctx entry string doc
  | DeleteItem ctx entry string
  | UpdateRecovery string doc

fun exec :: "env \<Rightarrow> call \<Rightarrow> store \<Rightarrow> reply \<times> store" where
  "exec e (Create c user body) st = post_inventory e c user body st"
| "exec e (Update c user ident body) st = patch_inventory e c user ident body st"
| "exec e (Recover c user ident body) st = post_recover e c user ident body st"
| "exec e (DeleteItem c user ident) st = delete_inventory e c user ident st"
| "exec e (UpdateRecovery ident body) st = patch_recoveries e ident body st"

fun run :: "env \<Rightarrow> call list \<Rightarrow> store \<Rightarrow> store" where
  "run e [] st = st"
| "run e (x # xs) st = run e xs (snd (exec e x st))"

fun writes_status :: "call \<Rightarrow> bool" where
  "writes_status (Update c user ident body) = (getf body ''status'' \<noteq> JUndefined)"
| "writes_status _ = False"

definition is_legacy :: "entry \<Rightarrow> bool" where
  "is_legacy x = (case fst x of StrId s \<Rightarrow> True | ObjId h \<Rightarrow> False)"

section \<open>A test scenario\<close>

text \<open>The runtime of the scenarios: an ObjectId is 24 lower-case hexadecimal digits,
  two dates parse, three session tokens verify, no external token does.\<close>

definition hex24 :: "string \<Rightarrow> bool" where
  "hex24 s = (length s = 24 \<and> list_all (\<lambda>c. c \<in> set ''0123456789abcdef'') s)"

definition test_date :: "jsval \<Rightarrow> int option" where
  "test_date v =
     (if v = JStr ''2024-01-01'' then Some 1704067200000
      else if v = JStr ''2024-01-05'' then Some 1704412800000 else None)"

definition test_jwt :: "string \<Rightarrow> doc option" where
  "test_jwt t =
     (if t = ''jwt-uid'' then Some [(''uid'', JStr ''uid-z'')]
      else if t = ''jwt-userId'' then Some [(''userId'', JStr ''0000000000000000000000ff'')]
      else if t = ''jwt-nobody'' then Some [(''userId'', JStr ''nobody'')]
      else None)"

definition test_env :: env where
  "test_env =
     \<lparr>NODE_ENV = Some ''production'',
      oid_hex = (\<lambda>s. if hex24 s then Some s else None),
      oid_other = (\<lambda>v. None),
      new_Date = test_date,
      Date_parse = test_date,
      other_toString = (\<lambda>v. ''[object Object]''),
      verifyIdToken = (\<lambda>t. None),
      jwt_verify = test_jwt\<rparr>"

definition dev_env :: env where
  "dev_env = test_env\<lparr>NODE_ENV := Some ''development''\<rparr>"

definition test_ctx :: "string \<Rightarrow> ctx" where
  "test_ctx h = \<lparr>clock = (\<lambda>n. 1704500000000 + int n), fresh = h, commit = True\<rparr>"

definition user_a :: entry where
  "user_a = (ObjId ''00000000000000000000000a'',
     [(''name'', JStr ''A''), (''email'', JStr ''a@x.com''), (''uid'', JStr ''uid-a'')])"

definition user_b :: entry where
  "user_b = (ObjId ''00000000000000000000000b'',
     [(''name'', JStr ''B''), (''email'', JStr ''b@x.com''), (''uid'', JStr ''uid-b'')])"

definition user_c :: entry where
  "user_c = (ObjId ''00000000000000000000000c'',
     [(''name'', JStr ''C''), (''email'', JStr ''c@x.com''), (''uid'', JStr ''uid-c'')])"

definition wallet_id :: string where
  "wallet_id = ''000000000000000000000001''"

definition wallet :: entry where
  "wallet = (ObjId wallet_id,
     [(''postType'', JStr ''lost''), (''thumbnail'', JStr ''u''), (''title'', JStr ''Wallet''),
      (''description'', JStr []), (''category'', JStr ''Accessories''),
      (''location'', JStr ''Park''), (''date'', JDate (Some 1704067200000)),
      (''contactName'', JStr ''A''), (''contactEmail'', JStr ''a@x.com''),
      (''status'', JStr ''not-recovered''),
      (''createdAt'', JDate (Some 1704100000000)), (''updatedAt'', JDate (Some 1704100000001))])"

text \<open>Another item of A, stored under the same text as the identifier of \<open>wallet\<close>, as a
  legacy string.\<close>

definition wallet_twin :: entry where
  "wallet_twin = (StrId wallet_id,
     [(''title'', JStr ''Keys''), (''contactEmail'', JStr ''a@x.com''),
      (''status'', JStr ''not-recovered'')])"

definition claim_b :: doc where
  "claim_b = [(''recoveredLocation'', JStr ''Station''), (''recoveredDate'', JStr ''2024-01-05'')]"

definition store_wallet :: store where
  "store_wallet = \<lparr>users = [user_a, user_b, user_c], items = [wallet], recoveries = []\<rparr>"

definition store_twin :: store where
  "store_twin = \<lparr>users = [user_a, user_b, user_c], items = [wallet, wallet_twin], recoveries = []\<rparr>"

text \<open>A recovery stored under a legacy string identifier, and its store.\<close>

definition legacy_recovery :: entry where
  "legacy_recovery = (StrId ''legacy-1'',
     [(''itemId'', JOid wallet_id), (''recoveryStatus'', JStr ''pending''), (''notes'', JStr [])])"

definition store_legacy :: store where
  "store_legacy = \<lparr>users = [user_a, user_b, user_c],
                    items = [(fst wallet, set_fields [(''status'', JStr ''recovered'')] (snd wallet))],
                    recoveries = [legacy_recovery]\<rparr>"

text \<open>The store after B has recovered the wallet.\<close>

definition wallet_recovered :: entry where
  "wallet_recovered = (ObjId wallet_id,
     set_fields [(''status'', JStr ''recovered''), (''updatedAt'', JDate (Some 1704500000001))]
       (snd wallet))"

definition recovery_b :: entry where
  "recovery_b = (ObjId ''0000000000000000000000e1'',
     recoveryData test_env (test_ctx ''0000000000000000000000e1'') user_b wallet claim_b
       (fst user_b) 1704412800000)"

definition store_recovered :: store where
  "store_recovered =
     \<lparr>users = [user_a, user_b, user_c], items = [wallet_recovered], recoveries = [recovery_b]\<rparr>"

text \<open>A request body with one allowlisted field and two others.\<close>

definition patch_mixed :: doc where
  "patch_mixed = [(''title'', JStr ''Purse''), (''contactEmail'', JStr ''b@x.com''),
                  (''createdAt'', JNum 0)]"

text \<open>The recoveries of a collection that reference an item.\<close>

definition referencing :: "docid \<Rightarrow> coll \<Rightarrow> coll" where
  "referencing i c = filter (\<lambda>r. references r i) c"

text \<open>The store holds the identifier of the path in both forms, as an ObjectId and as a
  string.\<close>

definition both_forms :: "env \<Rightarrow> string \<Rightarrow> coll \<Rightarrow> bool" where
  "both_forms e ident c =
     (case oid_hex e ident of
        None \<Rightarrow> False
      | Some h \<Rightarrow> ObjId h \<in> set (map fst c) \<and> StrId ident \<in> set (map fst c))"

text \<open>A request whose bearer token the identity provider refuses.\<close>

definition bad_bearer :: request where
  "bad_bearer = \<lparr>authorization = Some ''Bearer expired'', cookie_token = None\<rparr>"

text \<open>B recovers the wallet, A renames it, the recovery is completed, C recovers it
  again.\<close>

definition calls_bc :: "call list" where
  "calls_bc =
     [Recover (test_ctx ''0000000000000000000000e1'') user_b wallet_id claim_b,
      Update (test_ctx []) user_a wallet_id [(''title'', JStr ''Purse'')],
      UpdateRecovery ''0000000000000000000000e1'' [(''recoveryStatus'', JStr ''completed'')],
      Recover (test_ctx ''0000000000000000000000e2'') user_c wallet_id claim_b]"

section \<open>Facts about documents and collections\<close>

subsection \<open>Documents\<close>

lemma getf_update:
  "getf (AList.update k v d) k' = (if k' = k then v else getf d k')"
  by (simp add: getf_def update_conv')

lemma getf_set_fields:
  "getf (set_fields upd d) k = (case map_of upd k of None \<Rightarrow> getf d k | Some v \<Rightarrow> nul v)"
  by (induction upd) (auto simp: set_fields_def getf_update)

lemma getf_set_fields_other:
  "k \<notin> fst ` set upd \<Longrightarrow> getf (set_fields upd d) k = getf d k"
  by (simp add: getf_set_fields map_of_eq_None_iff[THEN iffD2])

lemma id_val_inj: "id_val a = id_val b \<Longrightarrow> a = b"
  by (cases a; cases b) auto

lemma nul_id_val: "nul (id_val a) = id_val a"
  by (cases a) (auto simp: nul_def)

lemma references_same: "references r a \<Longrightarrow> references r b \<Longrightarrow> a = b"
  by (auto simp: references_def matches_def nul_id_val intro: id_val_inj)

subsection \<open>Collections\<close>

lemma find_by_id:
  "List.find p c = Some x \<Longrightarrow> (\<And>y. fst y = fst x \<Longrightarrow> p y) \<Longrightarrow>
   List.find (\<lambda>y. fst y = fst x) c = Some x"
  by (induction c) (auto split: if_splits)

lemma find_in_set: "List.find p c = Some x \<Longrightarrow> x \<in> set c \<and> p x"
  by (induction c) (auto split: if_splits)

lemma find_item_first:
  assumes "find_item e ident c = Some x"
  shows "findOne (\<lambda>y. fst y = fst x) c = Some x"
proof (cases "ObjectId_isValid e ident")
  case True
  with assms have f: "List.find (\<lambda>y. Some (fst y) = new_ObjectId e (JStr ident) \<or> fst y = StrId ident) c = Some x"
    by (simp add: find_item_def findOne_def)
  from find_in_set[OF f] have "Some (fst x) = new_ObjectId e (JStr ident) \<or> fst x = StrId ident"
    by simp
  then show ?thesis
    unfolding findOne_def by (intro find_by_id[OF f]) auto
next
  case False
  with assms have f: "List.find (\<lambda>y. fst y = StrId ident) c = Some x"
    by (simp add: find_item_def findOne_def)
  from find_in_set[OF f] have "fst x = StrId ident" by simp
  then show ?thesis
    unfolding findOne_def by (intro find_by_id[OF f]) auto
qed

lemma find_item_patch_first:
  assumes "find_item_patch e ident c = Some x"
  shows "findOne (\<lambda>y. fst y = fst x) c = Some x"
proof -
  from assms consider
      (oid) "List.find (\<lambda>y. Some (fst y) = new_ObjectId e (JStr ident)) c = Some x"
    | (str) "List.find (\<lambda>y. fst y = StrId ident) c = Some x"
    by (auto simp: find_item_patch_def findOne_def split: if_splits option.splits)
  then show ?thesis
  proof cases
    case oid
    from find_in_set[OF oid] have "Some (fst x) = new_ObjectId e (JStr ident)" by simp
    then show ?thesis
      unfolding findOne_def by (intro find_by_id[OF oid]) auto
  next
    case str
    from find_in_set[OF str] have "fst x = StrId ident" by simp
    then show ?thesis
      unfolding findOne_def by (intro find_by_id[OF str]) auto
  qed
qed

lemma findOne_in_set: "findOne p c = Some x \<Longrightarrow> x \<in> set c \<and> p x"
  by (simp add: findOne_def find_in_set)

lemma map_fst_updateOne: "map fst (updateOne p f c) = map fst c"
  by (induction c) auto

lemma length_updateOne: "length (updateOne p f c) = length c"
  by (induction c) auto

lemma updateOne_unique:
  "unique_ids c \<Longrightarrow>
   updateOne (\<lambda>x. fst x = k) f c = map (\<lambda>x. if fst x = k then (fst x, f (snd x)) else x) c"
proof (induction c)
  case Nil
  show ?case by simp
next
  case (Cons a c)
  then have u: "unique_ids c" and na: "fst a \<notin> fst ` set c"
    by (auto simp: unique_ids_def)
  show ?case
  proof (cases "fst a = k")
    case True
    with na have "\<forall>x\<in>set c. fst x \<noteq> k"
      by (auto simp: image_iff)
    then have "map (\<lambda>x. if fst x = k then (fst x, f (snd x)) else x) c = c"
      by (simp add: map_idI)
    with True show ?thesis by simp
  next
    case False
    with Cons.IH[OF u] show ?thesis by simp
  qed
qed

lemma deleteOne_unique:
  "unique_ids c \<Longrightarrow> deleteOne (\<lambda>x. fst x = k) c = filter (\<lambda>x. fst x \<noteq> k) c"
proof (induction c)
  case Nil
  show ?case by simp
next
  case (Cons a c)
  then have u: "unique_ids c" and na: "fst a \<notin> fst ` set c"
    by (auto simp: unique_ids_def)
  show ?case
  proof (cases "fst a = k")
    case True
    with na have "\<forall>x\<in>set c. fst x \<noteq> k"
      by (auto simp: image_iff)
    then have "filter (\<lambda>x. fst x \<noteq> k) c = c"
      by simp
    with True show ?thesis by simp
  next
    case False
    with Cons.IH[OF u] show ?thesis by simp
  qed
qed

lemma filter_updateOne:
  "(\<And>x d. p x \<Longrightarrow> \<not> q x \<and> \<not> q (fst x, d)) \<Longrightarrow> filter q (updateOne p f c) = filter q c"
  by (induction c) auto

lemma filter_other_updateOne:
  "filter (\<lambda>x. fst x \<noteq> k) (updateOne (\<lambda>x. fst x = k) f c) = filter (\<lambda>x. fst x \<noteq> k) c"
  by (induction c) auto

lemma findOne_updateOne:
  "findOne (\<lambda>y. fst y = k) c = Some x \<Longrightarrow>
   findOne (\<lambda>y. fst y = k) (updateOne (\<lambda>y. fst y = k) f c) = Some (k, f (snd x))"
  by (induction c) (auto simp: findOne_def split: if_splits)

lemma list_ex_updateOne:
  "(\<And>x. P (fst x, f (snd x)) = P x) \<Longrightarrow> list_ex P (updateOne q f c) = list_ex P c"
  by (induction c) auto

lemma list_all2_updateOne:
  "(\<And>x. R (fst x, f (snd x)) x) \<Longrightarrow> (\<And>x. R x x) \<Longrightarrow> list_all2 R (updateOne q f c) c"
  by (induction c) (auto intro: list_all2_refl)

subsection \<open>Unfolding the scenario and the primitives\<close>

lemmas scenario =
  test_env_def dev_env_def hex24_def test_date_def test_jwt_def test_ctx_def
  user_a_def user_b_def user_c_def wallet_id_def wallet_def wallet_twin_def claim_b_def
  store_wallet_def store_twin_def legacy_recovery_def store_legacy_def

lemmas model =
  getf_def nul_def js_or_def matches_def findOne_def insertOne_def set_fields_def
  matchedCount_def deleteMany_def ObjectId_isValid_def new_ObjectId_def js_toString_def
  msg_def find_item_def find_item_patch_def clean_id_def trim_def js_space_def

lemmas scenario2 = scenario wallet_recovered_def recovery_b_def store_recovered_def recoveryData_def

subsection \<open>The fields a handler writes\<close>

lemma map_of_selected:
  "map_of (concat (map (\<lambda>f. if P f then [(f, g f)] else []) fs)) k =
     (if k \<in> set fs \<and> P k then Some (g k) else None)"
  by (induction fs) auto

lemma map_of_updateData:
  "map_of (updateData e c body) k =
     (if k \<in> set allowedFields \<and> getf body k \<noteq> JUndefined
      then Some (if k = ''date'' then JDate (new_Date e (getf body ''date'')) else getf body k)
      else if k = ''updatedAt'' then Some (JDate (Some (clock c 0))) else None)"
  unfolding updateData_def map_of_append map_of_selected
  by (auto simp: map_add_def)

lemma updatedAt_not_allowed: "''updatedAt'' \<notin> set allowedFields"
  by (simp add: allowedFields_def)

lemma fst_filteredData: "fst ` set (filteredData body) \<subseteq> set recoveryAllowedFields"
  by (auto simp: filteredData_def)

lemma new_ObjectId_str:
  "(Some i = new_ObjectId e (JStr s)) = (\<exists>h. oid_hex e s = Some h \<and> i = ObjId h)"
  by (cases "oid_hex e s") (auto simp: new_ObjectId_def)

lemma patch_inventory_authorized:
  assumes "find_item_patch e (clean_id ident) (items st) = Some item"
      and "NODE_ENV e = Some ''development''
           \<or> strict_eq (getf (snd item) ''contactEmail'') (getf (snd user) ''email'')"
  shows "patch_inventory e c user ident body st =
     (Reply 200 [(''message'', JStr ''Item updated successfully''),
                 (''modifiedCount'',
                  JNum (if set_fields (updateData e c body) (snd item) = snd item then 0 else 1))],
      st\<lparr>items := updateOne (\<lambda>x. fst x = fst item) (set_fields (updateData e c body)) (items st)\<rparr>)"
  using assms by (auto simp: patch_inventory_def Let_def)

lemma patch_inventory_stored:
  assumes "find_item_patch e (clean_id ident) (items st) = Some item"
      and "NODE_ENV e = Some ''development''
           \<or> strict_eq (getf (snd item) ''contactEmail'') (getf (snd user) ''email'')"
  shows "findOne (\<lambda>x. fst x = fst item) (items (snd (patch_inventory e c user ident body st)))
         = Some (fst item, set_fields (updateData e c body) (snd item))"
  using findOne_updateOne[OF find_item_patch_first[OF assms(1)]]
  by (simp add: patch_inventory_authorized[OF assms])

lemma getf_updateData:
  "getf (set_fields (updateData e c body) d) k =
     (if k \<in> set allowedFields \<and> getf body k \<noteq> JUndefined
      then (if k = ''date'' then JDate (new_Date e (getf body ''date'')) else getf body k)
      else if k = ''updatedAt'' then JDate (Some (clock c 0)) else getf d k)"
  by (simp add: getf_set_fields map_of_updateData nul_def)

lemma updateData_empty:
  "\<forall>f\<in>set allowedFields. getf body f = JUndefined \<Longrightarrow>
   updateData e c body = [(''updatedAt'', JDate (Some (clock c 0)))]"
  by (simp add: updateData_def allowedFields_def)

subsection \<open>A recovery that goes through\<close>

lemma post_recover_ok:
  assumes "find_item e ident (items st) = Some item"
      and "truthy (getf body ''recoveredLocation'')" and "truthy (getf body ''recoveredDate'')"
      and "\<not> strict_eq (getf (snd user) ''email'') (getf (snd item) ''contactEmail'')"
      and "new_Date e (getf body ''recoveredDate'') = Some t"
      and "new_ObjectId e (id_val (fst user)) = Some uid"
      and "commit c" and "ObjId (fresh c) \<notin> set (map fst (recoveries st))"
  shows "post_recover e c user ident body st =
     (Reply 200 [(''message'', JStr ''Item recovery recorded successfully''),
                 (''recovery'', JObj (recoveryData e c user item body uid t
                                      @ [(''_id'', JOid (fresh c))]))],
      st\<lparr>recoveries := recoveries st @ [(ObjId (fresh c), recoveryData e c user item body uid t)],
         items := updateOne (\<lambda>x. fst x = fst item)
                    (set_fields [(''status'', JStr ''recovered''),
                                 (''updatedAt'', JDate (Some (clock c 1)))])
                    (items st)\<rparr>)"
  using assms by (simp add: post_recover_def insertOne_def Let_def)

lemma references_recoveryData:
  "references (i, recoveryData e c user item body uid t) k = (k = fst item)"
  by (auto simp: references_def recoveryData_def getf_def matches_def nul_id_val dest: id_val_inj)

subsection \<open>The external token, and the deletion\<close>

lemma protect_firebase_fails:
  assumes "authorization req = Some a" and "bearer_token a = Some t"
      and "verifyIdToken e t = None"
  shows "protect_firebase e c req st = None"
  using assms by (simp add: protect_firebase_def)

lemma delete_inventory_cases:
  "(snd (delete_inventory e c user ident st) = st
      \<and> code (fst (delete_inventory e c user ident st)) \<noteq> 200)
   \<or> (\<exists>item. find_item e ident (items st) = Some item
         \<and> delete_inventory e c user ident st =
             (msg 200 ''Item deleted successfully'',
              st\<lparr>items := deleteOne (\<lambda>x. fst x = fst item) (items st),
                 recoveries := deleteMany (\<lambda>r. references r (fst item)) (recoveries st)\<rparr>))"
  by (auto simp: delete_inventory_def msg_def references_def split: option.splits)

lemma find_item_after_delete:
  assumes u: "unique_ids c" and f: "find_item e ident c = Some item"
      and n: "\<not> both_forms e ident c"
  shows "find_item e ident (filter (\<lambda>x. fst x \<noteq> fst item) c) = None"
proof (rule ccontr)
  assume "find_item e ident (filter (\<lambda>x. fst x \<noteq> fst item) c) \<noteq> None"
  then obtain y where y: "find_item e ident (filter (\<lambda>x. fst x \<noteq> fst item) c) = Some y"
    by auto
  have form: "\<And>z d. find_item e ident d = Some z \<Longrightarrow>
      z \<in> set d \<and> (fst z = StrId ident \<or> (\<exists>h. oid_hex e ident = Some h \<and> fst z = ObjId h))"
    by (auto simp: find_item_def findOne_def new_ObjectId_str ObjectId_isValid_def
             dest!: find_in_set split: if_splits)
  from form[OF f] form[OF y] have "fst y \<noteq> fst item" "y \<in> set c" "item \<in> set c"
      "fst y = StrId ident \<or> (\<exists>h. oid_hex e ident = Some h \<and> fst y = ObjId h)"
      "fst item = StrId ident \<or> (\<exists>h. oid_hex e ident = Some h \<and> fst item = ObjId h)"
    by auto
  then have "both_forms e ident c"
    by (force simp: both_forms_def)
  with n show False by simp
qed

subsection \<open>The consistent stores\<close>

lemma consistent_iff:
  "consistent st =
     (distinct (map fst (items st))
      \<and> (\<forall>r\<in>set (recoveries st). \<exists>i\<in>set (items st). references r (fst i))
      \<and> (\<forall>i\<in>set (items st). is_recovered i = (\<exists>r\<in>set (recoveries st). references r (fst i))))"
  by (simp add: consistent_def unique_ids_def no_orphan_def status_iff_recovery_def
        list_all_iff list_ex_iff)

lemma list_all_updateOne:
  "(\<And>x. P (fst x, f (snd x)) = P x) \<Longrightarrow> list_all P (updateOne q f c) = list_all P c"
  by (induction c) auto

subsection \<open>What each handler does to the store\<close>

lemma post_inventory_cases:
  "snd (post_inventory e c user body st) = st
   \<or> (\<exists>d. ObjId (fresh c) \<notin> set (map fst (items st))
          \<and> getf d ''status'' = JStr ''not-recovered''
          \<and> snd (post_inventory e c user body st)
              = st\<lparr>items := items st @ [(ObjId (fresh c), d)]\<rparr>)"
proof (cases "validateItemData e body \<and> ObjId (fresh c) \<notin> set (map fst (items st))")
  case True
  then show ?thesis
    by (intro disjI2 exI conjI) (simp_all add: post_inventory_def insertOne_def Let_def getf_def)
next
  case False
  then show ?thesis
    by (auto simp: post_inventory_def insertOne_def Let_def)
qed

lemma patch_inventory_cases:
  "snd (patch_inventory e c user ident body st) = st
   \<or> (\<exists>item::entry. snd (patch_inventory e c user ident body st)
          = st\<lparr>items := updateOne (\<lambda>x. fst x = fst item) (set_fields (updateData e c body))
                            (items st)\<rparr>)"
  by (auto simp: patch_inventory_def Let_def split: option.splits)

lemma post_recover_cases:
  "snd (post_recover e c user ident body st) = st
   \<or> (\<exists>item rd. item \<in> set (items st)
          \<and> (\<forall>k. references (ObjId (fresh c), rd) k = (k = fst item))
          \<and> snd (post_recover e c user ident body st)
              = st\<lparr>recoveries := recoveries st @ [(ObjId (fresh c), rd)],
                   items := updateOne (\<lambda>x. fst x = fst item)
                              (set_fields [(''status'', JStr ''recovered''),
                                           (''updatedAt'', JDate (Some (clock c 1)))])
                              (items st)\<rparr>)"
proof (cases "find_item e ident (items st)")
  case None
  then show ?thesis by (simp add: post_recover_def)
next
  case (Some item)
  from findOne_in_set[OF find_item_first[OF Some]] have m: "item \<in> set (items st)"
    by simp
  show ?thesis
  proof (cases "\<exists>t uid. truthy (getf body ''recoveredLocation'')
                  \<and> truthy (getf body ''recoveredDate'')
                  \<and> \<not> strict_eq (getf (snd user) ''email'') (getf (snd item) ''contactEmail'')
                  \<and> new_Date e (getf body ''recoveredDate'') = Some t
                  \<and> new_ObjectId e (id_val (fst user)) = Some uid
                  \<and> commit c \<and> ObjId (fresh c) \<notin> set (map fst (recoveries st))")
    case True
    then obtain t uid where ok:
      "truthy (getf body ''recoveredLocation'')" "truthy (getf body ''recoveredDate'')"
      "\<not> strict_eq (getf (snd user) ''email'') (getf (snd item) ''contactEmail'')"
      "new_Date e (getf body ''recoveredDate'') = Some t"
      "new_ObjectId e (id_val (fst user)) = Some uid"
      "commit c" "ObjId (fresh c) \<notin> set (map fst (recoveries st))"
      by blast
    show ?thesis
      by (intro disjI2 exI[of _ item] exI[of _ "recoveryData e c user item body uid t"])
         (simp add: post_recover_ok[OF Some ok] references_recoveryData m)
  next
    case False
    then have "snd (post_recover e c user ident body st) = st"
      by (auto simp: post_recover_def Some insertOne_def Let_def split: option.splits)
    then show ?thesis ..
  qed
qed

lemma patch_recoveries_cases:
  "snd (patch_recoveries e ident body st) = st
   \<or> snd (patch_recoveries e ident body st)
       = st\<lparr>recoveries := updateOne (\<lambda>x. Some (fst x) = new_ObjectId e (JStr ident))
                              (set_fields (filteredData body)) (recoveries st)\<rparr>"
  by (simp add: patch_recoveries_def Let_def)

subsection \<open>Each handler keeps the store consistent\<close>

lemma consistent_create:
  assumes "consistent st"
  shows "consistent (snd (post_inventory e c user body st))"
proof -
  from post_inventory_cases[of e c user body st]
  consider "snd (post_inventory e c user body st) = st"
    | d where "ObjId (fresh c) \<notin> set (map fst (items st))"
        "getf d ''status'' = JStr ''not-recovered''"
        "snd (post_inventory e c user body st) = st\<lparr>items := items st @ [(ObjId (fresh c), d)]\<rparr>"
    by blast
  then show ?thesis
  proof cases
    case 1
    with assms show ?thesis by simp
  next
    case 2
    have new: "\<not> is_recovered (ObjId (fresh c), d)"
      by (simp add: is_recovered_def 2(2))
    have none: "\<not> (\<exists>r\<in>set (recoveries st). references r (ObjId (fresh c)))"
    proof
      assume "\<exists>r\<in>set (recoveries st). references r (ObjId (fresh c))"
      then obtain r where r: "r \<in> set (recoveries st)" "references r (ObjId (fresh c))"
        by blast
      with assms obtain i where i: "i \<in> set (items st)" "references r (fst i)"
        by (auto simp: consistent_iff)
      from references_same[OF r(2) i(2)] i(1) 2(1) show False
        by auto
    qed
    from assms new none 2(1) show ?thesis
      unfolding 2(3) consistent_iff by auto
  qed
qed

lemma consistent_map_items:
  assumes "consistent st"
      and "\<And>x. fst (g x) = fst x"
      and "\<And>x. x \<in> set (items st) \<Longrightarrow> is_recovered (g x) = is_recovered x"
  shows "consistent (st\<lparr>items := map g (items st)\<rparr>)"
proof -
  have "fst \<circ> g = fst"
    by (simp add: fun_eq_iff assms(2))
  with assms(1,3) show ?thesis
    unfolding consistent_iff by (simp add: assms(2))
qed

lemma consistent_update:
  assumes "consistent st" and "getf body ''status'' = JUndefined"
  shows "consistent (snd (patch_inventory e c user ident body st))"
proof -
  from patch_inventory_cases[of e c user ident body st]
  consider "snd (patch_inventory e c user ident body st) = st"
    | item :: entry where "snd (patch_inventory e c user ident body st)
          = st\<lparr>items := updateOne (\<lambda>x. fst x = fst item) (set_fields (updateData e c body))
                            (items st)\<rparr>"
    by blast
  then show ?thesis
  proof cases
    case 1
    with assms show ?thesis by simp
  next
    case 2
    let ?g = "\<lambda>x. if fst x = fst item
                   then (fst x, set_fields (updateData e c body) (snd x)) else x"
    from assms(1) have u: "unique_ids (items st)"
      by (simp add: consistent_def)
    have "consistent (st\<lparr>items := map ?g (items st)\<rparr>)"
      by (rule consistent_map_items[OF assms(1)])
         (simp_all add: is_recovered_def getf_updateData assms(2))
    then show ?thesis
      by (simp add: 2 updateOne_unique[OF u])
  qed
qed

lemma consistent_recover:
  assumes "consistent st"
  shows "consistent (snd (post_recover e c user ident body st))"
proof -
  from post_recover_cases[of e c user ident body st]
  consider "snd (post_recover e c user ident body st) = st"
    | item rd where "item \<in> set (items st)"
        "\<And>k. references (ObjId (fresh c), rd) k = (k = fst item)"
        "snd (post_recover e c user ident body st)
              = st\<lparr>recoveries := recoveries st @ [(ObjId (fresh c), rd)],
                   items := updateOne (\<lambda>x. fst x = fst item)
                              (set_fields [(''status'', JStr ''recovered''),
                                           (''updatedAt'', JDate (Some (clock c 1)))])
                              (items st)\<rparr>"
    by blast
  then show ?thesis
  proof cases
    case 1
    with assms show ?thesis by simp
  next
    case 2
    define g :: "entry \<Rightarrow> entry" where
      "g = (\<lambda>x. if fst x = fst item
                then (fst x, set_fields [(''status'', JStr ''recovered''),
                                         (''updatedAt'', JDate (Some (clock c 1)))] (snd x))
                else x)"
    from assms have u: "unique_ids (items st)"
      by (simp add: consistent_def)
    have fg: "\<And>x. fst (g x) = fst x"
      by (simp add: g_def)
    have rec: "\<And>x. is_recovered (g x) = (fst x = fst item \<or> is_recovered x)"
      by (simp add: g_def is_recovered_def getf_set_fields nul_def)
    have ids: "fst \<circ> g = fst"
      by (simp add: fun_eq_iff fg)
    have upd: "updateOne (\<lambda>x. fst x = fst item)
                 (set_fields [(''status'', JStr ''recovered''),
                              (''updatedAt'', JDate (Some (clock c 1)))]) (items st)
               = map g (items st)"
      unfolding g_def by (rule updateOne_unique[OF u])
    have d: "distinct (map fst (map g (items st)))"
      using assms by (simp add: ids consistent_iff)
    have o: "\<forall>r\<in>set (recoveries st @ [(ObjId (fresh c), rd)]).
               \<exists>i\<in>set (map g (items st)). references r (fst i)"
    proof
      fix r
      assume "r \<in> set (recoveries st @ [(ObjId (fresh c), rd)])"
      then have "r \<in> set (recoveries st) \<or> r = (ObjId (fresh c), rd)"
        by auto
      then have "\<exists>i\<in>set (items st). references r (fst i)"
        using assms 2(1,2) by (auto simp: consistent_iff)
      then show "\<exists>i\<in>set (map g (items st)). references r (fst i)"
        by (simp add: fg)
    qed
    have s: "\<forall>i\<in>set (map g (items st)).
               is_recovered i
               = (\<exists>r\<in>set (recoveries st @ [(ObjId (fresh c), rd)]). references r (fst i))"
    proof
      fix i
      assume "i \<in> set (map g (items st))"
      then obtain x where x: "x \<in> set (items st)" "i = g x"
        by auto
      from assms x(1) have old: "is_recovered x = (\<exists>r\<in>set (recoveries st). references r (fst x))"
        by (simp add: consistent_iff)
      have "is_recovered (g x)
            = (\<exists>r\<in>set (recoveries st @ [(ObjId (fresh c), rd)]). references r (fst (g x)))"
        unfolding rec fg using old 2(2) by auto
      then show "is_recovered i
            = (\<exists>r\<in>set (recoveries st @ [(ObjId (fresh c), rd)]). references r (fst i))"
        by (simp only: x(2))
    qed
    from d o s show ?thesis
      unfolding 2(3) upd consistent_iff by simp
  qed
qed

lemma consistent_delete:
  assumes "consistent st"
  shows "consistent (snd (delete_inventory e c user ident st))"
proof -
  from delete_inventory_cases[of e c user ident st]
  consider "snd (delete_inventory e c user ident st) = st"
    | item :: entry where "delete_inventory e c user ident st =
             (msg 200 ''Item deleted successfully'',
              st\<lparr>items := deleteOne (\<lambda>x. fst x = fst item) (items st),
                 recoveries := deleteMany (\<lambda>r. references r (fst item)) (recoveries st)\<rparr>)"
    by blast
  then show ?thesis
  proof cases
    case 1
    with assms show ?thesis by simp
  next
    case 2
    from assms have u: "unique_ids (items st)"
      by (simp add: consistent_def)
    have d: "distinct (map fst (filter (\<lambda>x. fst x \<noteq> fst item) (items st)))"
      using assms by (simp add: consistent_iff distinct_map_filter)
    have o: "\<forall>r\<in>set (filter (\<lambda>r. \<not> references r (fst item)) (recoveries st)).
               \<exists>i\<in>set (filter (\<lambda>x. fst x \<noteq> fst item) (items st)). references r (fst i)"
    proof
      fix r
      assume "r \<in> set (filter (\<lambda>r. \<not> references r (fst item)) (recoveries st))"
      then have r: "r \<in> set (recoveries st)" "\<not> references r (fst item)"
        by auto
      with assms obtain i where i: "i \<in> set (items st)" "references r (fst i)"
        by (auto simp: consistent_iff)
      with r(2) have "fst i \<noteq> fst item"
        by auto
      with i(1) have "i \<in> set (filter (\<lambda>x. fst x \<noteq> fst item) (items st))"
        by simp
      with i(2) show "\<exists>i\<in>set (filter (\<lambda>x. fst x \<noteq> fst item) (items st)). references r (fst i)"
        by blast
    qed
    have s: "\<forall>i\<in>set (filter (\<lambda>x. fst x \<noteq> fst item) (items st)).
               is_recovered i
               = (\<exists>r\<in>set (filter (\<lambda>r. \<not> references r (fst item)) (recoveries st)).
                    references r (fst i))"
    proof
      fix i
      assume "i \<in> set (filter (\<lambda>x. fst x \<noteq> fst item) (items st))"
      then have i: "i \<in> set (items st)" "fst i \<noteq> fst item"
        by auto
      from assms i(1) have old: "is_recovered i = (\<exists>r\<in>set (recoveries st). references r (fst i))"
        by (simp add: consistent_iff)
      have "\<And>r. references r (fst i) \<Longrightarrow> \<not> references r (fst item)"
        using i(2) references_same by blast
      then show "is_recovered i
               = (\<exists>r\<in>set (filter (\<lambda>r. \<not> references r (fst item)) (recoveries st)).
                    references r (fst i))"
        unfolding old by auto
    qed
    from d o s
    have "consistent (st\<lparr>items := filter (\<lambda>x. fst x \<noteq> fst item) (items st),
                         recoveries := filter (\<lambda>r. \<not> references r (fst item)) (recoveries st)\<rparr>)"
      unfolding consistent_iff by simp
    then show ?thesis
      by (simp add: 2 deleteOne_unique[OF u] deleteMany_def)
  qed
qed

lemma references_filteredData:
  "references (fst x, set_fields (filteredData body) (snd x)) k = references x k"
proof -
  have "''itemId'' \<notin> fst ` set (filteredData body)"
    using fst_filteredData[of body] by (auto simp: recoveryAllowedFields_def)
  then show ?thesis
    by (simp add: references_def getf_set_fields_other)
qed

lemma consistent_patch_recoveries:
  assumes "consistent st"
  shows "consistent (snd (patch_recoveries e ident body st))"
proof -
  from patch_recoveries_cases[of e ident body st]
  consider "snd (patch_recoveries e ident body st) = st"
    | "snd (patch_recoveries e ident body st)
       = st\<lparr>recoveries := updateOne (\<lambda>x. Some (fst x) = new_ObjectId e (JStr ident))
                              (set_fields (filteredData body)) (recoveries st)\<rparr>"
    by blast
  then show ?thesis
  proof cases
    case 1
    with assms show ?thesis by simp
  next
    case 2
    let ?q = "\<lambda>x. Some (fst x) = new_ObjectId e (JStr ident)"
    let ?f = "set_fields (filteredData body)"
    have a: "list_all (\<lambda>r. list_ex (\<lambda>i. references r (fst i)) (items st))
               (updateOne ?q ?f (recoveries st))
             = list_all (\<lambda>r. list_ex (\<lambda>i. references r (fst i)) (items st)) (recoveries st)"
      by (rule list_all_updateOne) (simp add: references_filteredData)
    have b: "\<And>i. list_ex (\<lambda>r. references r (fst i)) (updateOne ?q ?f (recoveries st))
                 = list_ex (\<lambda>r. references r (fst i)) (recoveries st)"
      by (rule list_ex_updateOne) (simp add: references_filteredData)
    from assms show ?thesis
      by (simp add: 2 consistent_def no_orphan_def status_iff_recovery_def a b)
  qed
qed

lemma consistent_exec:
  "consistent st \<Longrightarrow> \<not> writes_status x \<Longrightarrow> consistent (snd (exec e x st))"
  by (cases x)
     (simp_all add: consistent_create consistent_update consistent_recover consistent_delete
        consistent_patch_recoveries)

section \<open>The claims\<close>

subsection \<open>C1: the status of an item and its recoveries\<close>

text \<open>
  Claim C1, as the code has it. Take a store in which the item identifiers are unique, every
  recovery references a stored item and every item is \<^verbatim>\<open>recovered\<close> exactly when a recovery
  references it (the empty store is one). After any sequence of calls of
  \<^verbatim>\<open>POST /inventory\<close>, \<^verbatim>\<open>PATCH /inventory/:id\<close>, \<^verbatim>\<open>POST /inventory/:id/recover\<close>,
  \<^verbatim>\<open>DELETE /inventory/:id\<close> and \<^verbatim>\<open>PATCH /recoveries/:id\<close>, by any principals and with any
  inputs, in which no item update carries a \<^verbatim>\<open>status\<close> field, the store is again such
  a store: every item is \<^verbatim>\<open>recovered\<close> exactly when a recovery references it. (An item
  update that carries \<^verbatim>\<open>status\<close> writes it as it is, whatever the recoveries are.)
\<close>

theorem status_iff_recovery_kept:
  assumes "consistent st" and "\<not> list_ex writes_status calls"
  shows "consistent (run e calls st) \<and> status_iff_recovery (run e calls st)"
proof -
  from assms have "consistent (run e calls st)"
  proof (induction calls arbitrary: st)
    case Nil
    then show ?case by simp
  next
    case (Cons x calls)
    from Cons.prems have "consistent (snd (exec e x st))"
      by (simp add: consistent_exec)
    with Cons.IH[of "snd (exec e x st)"] Cons.prems(2) show ?case
      by simp
  qed
  then show ?thesis by (simp add: consistent_def)
qed

text \<open>On the store with the wallet alone: four calls, after which the wallet is recovered
  and has two recoveries.\<close>

theorem status_iff_recovery_kept_witness:
  "consistent store_wallet
   \<and> \<not> list_ex writes_status calls_bc
   \<and> status_iff_recovery (run test_env calls_bc store_wallet)
   \<and> map is_recovered (items (run test_env calls_bc store_wallet)) = [True]
   \<and> length (recoveries (run test_env calls_bc store_wallet)) = 2"
proof -
  have c: "consistent store_wallet"
    by (simp add: consistent_def unique_ids_def no_orphan_def status_iff_recovery_def
          is_recovered_def scenario model)
  have w: "\<not> list_ex writes_status calls_bc"
    by (simp add: calls_bc_def getf_def)
  have r: "map is_recovered (items (run test_env calls_bc store_wallet)) = [True]
           \<and> length (recoveries (run test_env calls_bc store_wallet)) = 2"
    by (simp add: calls_bc_def scenario model post_recover_def patch_inventory_def
          patch_recoveries_def recoveryData_def updateData_def allowedFields_def filteredData_def
          recoveryAllowedFields_def is_recovered_def Let_def)
  from status_iff_recovery_kept[OF c w, of test_env] r c w show ?thesis by simp
qed

text \<open>The claim as stated fails: A updates the own wallet with \<^verbatim>\<open>status\<close>
  \<^verbatim>\<open>recovered\<close>; the wallet is recovered and no recovery exists.\<close>

theorem status_iff_recovery_kept_counterexample:
  "consistent store_wallet
   \<and> status_iff_recovery store_wallet
   \<and> recoveries (run test_env [Update (test_ctx []) user_a wallet_id [(''status'', JStr ''recovered'')]]
                   store_wallet) = []
   \<and> map is_recovered
        (items (run test_env [Update (test_ctx []) user_a wallet_id [(''status'', JStr ''recovered'')]]
                  store_wallet)) = [True]
   \<and> \<not> status_iff_recovery
        (run test_env [Update (test_ctx []) user_a wallet_id [(''status'', JStr ''recovered'')]]
           store_wallet)"
  by (simp add: consistent_def unique_ids_def no_orphan_def status_iff_recovery_def
        is_recovered_def scenario model patch_inventory_def updateData_def allowedFields_def
        Let_def)

subsection \<open>C2: recovering one's own item\<close>

text \<open>
  Claim C2, as the code has it. When the principal's email is the item's
  \<^verbatim>\<open>contactEmail\<close>, \<^verbatim>\<open>POST /inventory/:id/recover\<close> writes nothing, whatever the claim
  fields are. Its answer is the self-recovery refusal (400, "You cannot recover your own
  item") whenever \<^verbatim>\<open>recoveredLocation\<close> and \<^verbatim>\<open>recoveredDate\<close> are both present, also
  with a date that does not parse; when one of them is absent the answer is the
  validation error "Missing required fields", which the handler checks first.
\<close>

theorem recover_own_item:
  assumes "find_item e ident (items st) = Some item"
      and "strict_eq (getf (snd user) ''email'') (getf (snd item) ''contactEmail'')"
  shows "snd (post_recover e c user ident body st) = st
     \<and> fst (post_recover e c user ident body st) =
         (if truthy (getf body ''recoveredLocation'') \<and> truthy (getf body ''recoveredDate'')
          then msg 400 ''You cannot recover your own item''
          else msg 400 ''Missing required fields'')"
  using assms by (simp add: post_recover_def)

text \<open>A owns the wallet and claims it with a date that does not parse.\<close>

theorem recover_own_item_witness:
  "find_item test_env wallet_id (items store_wallet) = Some wallet
   \<and> strict_eq (getf (snd user_a) ''email'') (getf (snd wallet) ''contactEmail'')
   \<and> post_recover test_env (test_ctx ''0000000000000000000000e1'') user_a wallet_id
        [(''recoveredLocation'', JStr ''Station''), (''recoveredDate'', JStr ''not-a-date'')]
        store_wallet
      = (msg 400 ''You cannot recover your own item'', store_wallet)"
proof -
  have f: "find_item test_env wallet_id (items store_wallet) = Some wallet"
    by (simp add: scenario model)
  have s: "strict_eq (getf (snd user_a) ''email'') (getf (snd wallet) ''contactEmail'')"
    by (simp add: scenario model)
  from recover_own_item[OF f s, of "test_ctx ''0000000000000000000000e1''"
      "[(''recoveredLocation'', JStr ''Station''), (''recoveredDate'', JStr ''not-a-date'')]"]
  have "post_recover test_env (test_ctx ''0000000000000000000000e1'') user_a wallet_id
        [(''recoveredLocation'', JStr ''Station''), (''recoveredDate'', JStr ''not-a-date'')]
        store_wallet
      = (msg 400 ''You cannot recover your own item'', store_wallet)"
    by (simp add: getf_def prod_eq_iff)
  with f s show ?thesis by simp
qed

text \<open>The claim as stated fails: A claims the own wallet with no claim field at all, and
  the answer is the validation error, not the self-recovery refusal.\<close>

theorem recover_own_item_counterexample:
  "find_item test_env wallet_id (items store_wallet) = Some wallet
   \<and> strict_eq (getf (snd user_a) ''email'') (getf (snd wallet) ''contactEmail'')
   \<and> fst (post_recover test_env (test_ctx ''0000000000000000000000e1'') user_a wallet_id []
            store_wallet)
      = msg 400 ''Missing required fields''
   \<and> msg 400 ''Missing required fields'' \<noteq> msg 400 ''You cannot recover your own item''"
  by (simp add: scenario model post_recover_def)

subsection \<open>C3: the ownership guards of update and delete\<close>

text \<open>
  Claim C3, as the code has it. On an existing item, \<^verbatim>\<open>PATCH /inventory/:id\<close> answers 403
  exactly when \<^verbatim>\<open>NODE_ENV\<close> is not \<^verbatim>\<open>development\<close> and the principal's email is not the
  item's \<^verbatim>\<open>contactEmail\<close>, and answers 200 otherwise: under \<^verbatim>\<open>development\<close> the handler
  skips the ownership check. \<^verbatim>\<open>DELETE /inventory/:id\<close> answers 403 exactly when the
  principal's email is not the item's \<^verbatim>\<open>contactEmail\<close> and the item's \<^verbatim>\<open>userId\<close> is absent
  or is not the principal's identifier, whatever the environment; otherwise it goes on to
  the transaction (200 when it commits, 500 when it does not).
\<close>

theorem ownership_guards:
  "(find_item_patch e (clean_id ident) (items st) = Some item \<longrightarrow>
      ((fst (patch_inventory e c user ident body st) = msg 403 ''Not authorized'')
         = (NODE_ENV e \<noteq> Some ''development''
            \<and> \<not> strict_eq (getf (snd item) ''contactEmail'') (getf (snd user) ''email'')))
      \<and> ((code (fst (patch_inventory e c user ident body st)) = 200)
         = (NODE_ENV e = Some ''development''
            \<or> strict_eq (getf (snd item) ''contactEmail'') (getf (snd user) ''email''))))
   \<and> (find_item e ident' (items st) = Some item' \<longrightarrow>
      ((fst (delete_inventory e c user ident' st) = msg 403 ''Not authorized to delete this item'')
         = ((\<not> truthy (getf (snd item') ''userId'')
              \<or> js_toString e (getf (snd item') ''userId'') \<noteq> js_toString e (id_val (fst user)))
            \<and> \<not> strict_eq (getf (snd item') ''contactEmail'') (getf (snd user) ''email'')))
      \<and> ((code (fst (delete_inventory e c user ident' st)) = (if commit c then 200 else 500))
         = ((truthy (getf (snd item') ''userId'')
              \<and> js_toString e (getf (snd item') ''userId'') = js_toString e (id_val (fst user)))
            \<or> strict_eq (getf (snd item') ''contactEmail'') (getf (snd user) ''email''))))"
proof (intro conjI impI)
  assume f: "find_item_patch e (clean_id ident) (items st) = Some item"
  show "(fst (patch_inventory e c user ident body st) = msg 403 ''Not authorized'')
         = (NODE_ENV e \<noteq> Some ''development''
            \<and> \<not> strict_eq (getf (snd item) ''contactEmail'') (getf (snd user) ''email''))"
    using f by (simp add: patch_inventory_def Let_def msg_def)
  show "(code (fst (patch_inventory e c user ident body st)) = 200)
         = (NODE_ENV e = Some ''development''
            \<or> strict_eq (getf (snd item) ''contactEmail'') (getf (snd user) ''email''))"
    using f by (simp add: patch_inventory_def Let_def msg_def)
next
  assume f: "find_item e ident' (items st) = Some item'"
  show "(fst (delete_inventory e c user ident' st) = msg 403 ''Not authorized to delete this item'')
         = ((\<not> truthy (getf (snd item') ''userId'')
              \<or> js_toString e (getf (snd item') ''userId'') \<noteq> js_toString e (id_val (fst user)))
            \<and> \<not> strict_eq (getf (snd item') ''contactEmail'') (getf (snd user) ''email''))"
    using f by (simp add: delete_inventory_def msg_def)
  show "(code (fst (delete_inventory e c user ident' st)) = (if commit c then 200 else 500))
         = ((truthy (getf (snd item') ''userId'')
              \<and> js_toString e (getf (snd item') ''userId'') = js_toString e (id_val (fst user)))
            \<or> strict_eq (getf (snd item') ''contactEmail'') (getf (snd user) ''email''))"
    using f by (auto simp: delete_inventory_def msg_def)
qed

text \<open>In production B, who does not own the wallet, is refused both; A, the owner, is
  not.\<close>

theorem ownership_guards_witness:
  "find_item_patch test_env (clean_id wallet_id) (items store_wallet) = Some wallet
   \<and> find_item test_env wallet_id (items store_wallet) = Some wallet
   \<and> fst (patch_inventory test_env (test_ctx []) user_b wallet_id [(''title'', JStr ''Mine'')]
            store_wallet) = msg 403 ''Not authorized''
   \<and> fst (delete_inventory test_env (test_ctx []) user_b wallet_id store_wallet)
       = msg 403 ''Not authorized to delete this item''
   \<and> code (fst (patch_inventory test_env (test_ctx []) user_a wallet_id [(''title'', JStr ''Mine'')]
                  store_wallet)) = 200
   \<and> code (fst (delete_inventory test_env (test_ctx []) user_a wallet_id store_wallet)) = 200"
proof -
  have f: "find_item_patch test_env (clean_id wallet_id) (items store_wallet) = Some wallet"
    by (simp add: scenario model)
  have g: "find_item test_env wallet_id (items store_wallet) = Some wallet"
    by (simp add: scenario model)
  have b: "\<not> strict_eq (getf (snd wallet) ''contactEmail'') (getf (snd user_b) ''email'')"
          "\<not> truthy (getf (snd wallet) ''userId'')"
          "NODE_ENV test_env \<noteq> Some ''development''"
          "strict_eq (getf (snd wallet) ''contactEmail'') (getf (snd user_a) ''email'')"
          "commit (test_ctx [])"
    by (simp_all add: scenario model)
  from ownership_guards[of test_env wallet_id store_wallet wallet "test_ctx []" user_b
         "[(''title'', JStr ''Mine'')]" wallet_id wallet]
       ownership_guards[of test_env wallet_id store_wallet wallet "test_ctx []" user_a
         "[(''title'', JStr ''Mine'')]" wallet_id wallet]
       f g b
  show ?thesis by simp
qed

text \<open>The claim as stated fails: under \<^verbatim>\<open>development\<close> B updates the wallet of A.\<close>

theorem ownership_guards_counterexample:
  "find_item_patch dev_env (clean_id wallet_id) (items store_wallet) = Some wallet
   \<and> \<not> strict_eq (getf (snd wallet) ''contactEmail'') (getf (snd user_b) ''email'')
   \<and> fst (patch_inventory dev_env (test_ctx []) user_b wallet_id [(''title'', JStr ''Mine'')]
            store_wallet)
       = Reply 200 [(''message'', JStr ''Item updated successfully''), (''modifiedCount'', JNum 1)]"
  by (simp add: scenario model patch_inventory_def updateData_def allowedFields_def Let_def)

subsection \<open>C4: the cascade of the deletion\<close>

text \<open>
  Claim C4, as the code has it. \<^verbatim>\<open>DELETE /inventory/:id\<close> either leaves the store as it
  is, or removes the item it found together with every recovery that references it: never
  one without the other. After an answer 200 no item has the identifier of the deleted
  one and no recovery references it, and users are untouched. \<^verbatim>\<open>GET /inventory/:id\<close>
  with the same path identifier then answers 404, unless the store held that identifier
  in both forms (as an ObjectId and as a string): then the other item is still found.
  (The item identifiers are unique, as the index of the collection has it.)
\<close>

theorem delete_cascade:
  assumes "unique_ids (items st)"
  shows "(snd (delete_inventory e c user ident st) = st
          \<or> (\<exists>item. find_item e ident (items st) = Some item
                \<and> items (snd (delete_inventory e c user ident st))
                    = filter (\<lambda>x. fst x \<noteq> fst item) (items st)
                \<and> recoveries (snd (delete_inventory e c user ident st))
                    = filter (\<lambda>r. \<not> references r (fst item)) (recoveries st)))
     \<and> (code (fst (delete_inventory e c user ident st)) = 200 \<longrightarrow>
          (\<exists>item. find_item e ident (items st) = Some item
             \<and> fst item \<notin> set (map fst (items (snd (delete_inventory e c user ident st))))
             \<and> referencing (fst item) (recoveries (snd (delete_inventory e c user ident st))) = []
             \<and> items (snd (delete_inventory e c user ident st))
                 = filter (\<lambda>x. fst x \<noteq> fst item) (items st)
             \<and> recoveries (snd (delete_inventory e c user ident st))
                 = filter (\<lambda>r. \<not> references r (fst item)) (recoveries st)
             \<and> users (snd (delete_inventory e c user ident st)) = users st
             \<and> (\<not> both_forms e ident (items st) \<longrightarrow>
                  get_inventory e ident (snd (delete_inventory e c user ident st))
                    = msg 404 ''Item not found'')))"
proof -
  from delete_inventory_cases[of e c user ident st]
  consider (same) "snd (delete_inventory e c user ident st) = st"
                  "code (fst (delete_inventory e c user ident st)) \<noteq> 200"
    | (gone) item where "find_item e ident (items st) = Some item"
        "delete_inventory e c user ident st =
             (msg 200 ''Item deleted successfully'',
              st\<lparr>items := deleteOne (\<lambda>x. fst x = fst item) (items st),
                 recoveries := deleteMany (\<lambda>r. references r (fst item)) (recoveries st)\<rparr>)"
    by blast
  then show ?thesis
  proof cases
    case same
    then show ?thesis by simp
  next
    case gone
    have i: "deleteOne (\<lambda>x. fst x = fst item) (items st) = filter (\<lambda>x. fst x \<noteq> fst item) (items st)"
      by (rule deleteOne_unique[OF assms])
    have g: "\<not> both_forms e ident (items st) \<Longrightarrow>
             find_item e ident (filter (\<lambda>x. fst x \<noteq> fst item) (items st)) = None"
      by (rule find_item_after_delete[OF assms gone(1)])
    have "find_item e ident (items st) = Some item
       \<and> fst item \<notin> set (map fst (items (snd (delete_inventory e c user ident st))))
       \<and> referencing (fst item) (recoveries (snd (delete_inventory e c user ident st))) = []
       \<and> items (snd (delete_inventory e c user ident st))
           = filter (\<lambda>x. fst x \<noteq> fst item) (items st)
       \<and> recoveries (snd (delete_inventory e c user ident st))
           = filter (\<lambda>r. \<not> references r (fst item)) (recoveries st)
       \<and> users (snd (delete_inventory e c user ident st)) = users st
       \<and> (\<not> both_forms e ident (items st) \<longrightarrow>
            get_inventory e ident (snd (delete_inventory e c user ident st))
              = msg 404 ''Item not found'')"
      using gone(1) g
      by (auto simp: gone(2) i deleteMany_def referencing_def get_inventory_def filter_empty_conv)
    then show ?thesis by blast
  qed
qed

text \<open>A deletes the wallet that B has recovered: item and recovery are gone.\<close>

theorem delete_cascade_witness:
  "unique_ids (items store_recovered)
   \<and> code (fst (delete_inventory test_env (test_ctx []) user_a wallet_id store_recovered)) = 200
   \<and> recoveries store_recovered = [recovery_b]
   \<and> snd (delete_inventory test_env (test_ctx []) user_a wallet_id store_recovered)
       = \<lparr>users = [user_a, user_b, user_c], items = [], recoveries = []\<rparr>
   \<and> get_inventory test_env wallet_id
        (snd (delete_inventory test_env (test_ctx []) user_a wallet_id store_recovered))
       = msg 404 ''Item not found''"
proof -
  have u: "unique_ids (items store_recovered)"
    by (simp add: unique_ids_def scenario2)
  have f: "find_item test_env wallet_id (items store_recovered) = Some wallet_recovered"
    by (simp add: scenario2 model)
  have k: "code (fst (delete_inventory test_env (test_ctx []) user_a wallet_id store_recovered)) = 200"
    by (simp add: delete_inventory_def f) (simp add: scenario2 model)
  have n: "\<not> both_forms test_env wallet_id (items store_recovered)"
    by (simp add: both_forms_def scenario2)
  have r: "recoveries store_recovered = [recovery_b]"
    by (simp add: store_recovered_def)
  have x: "filter (\<lambda>x. fst x \<noteq> fst wallet_recovered) (items store_recovered) = []"
          "filter (\<lambda>r. \<not> references r (fst wallet_recovered)) (recoveries store_recovered) = []"
          "users store_recovered = [user_a, user_b, user_c]"
    by (simp_all add: references_def scenario2 model)
  from delete_cascade[OF u, of test_env "test_ctx []" user_a wallet_id] k f n
  have "items (snd (delete_inventory test_env (test_ctx []) user_a wallet_id store_recovered))
           = filter (\<lambda>x. fst x \<noteq> fst wallet_recovered) (items store_recovered)
       \<and> recoveries (snd (delete_inventory test_env (test_ctx []) user_a wallet_id store_recovered))
           = filter (\<lambda>r. \<not> references r (fst wallet_recovered)) (recoveries store_recovered)
       \<and> users (snd (delete_inventory test_env (test_ctx []) user_a wallet_id store_recovered))
           = users store_recovered
       \<and> get_inventory test_env wallet_id
            (snd (delete_inventory test_env (test_ctx []) user_a wallet_id store_recovered))
           = msg 404 ''Item not found''"
    by auto
  with x have "snd (delete_inventory test_env (test_ctx []) user_a wallet_id store_recovered)
       = \<lparr>users = [user_a, user_b, user_c], items = [], recoveries = []\<rparr>"
     and "get_inventory test_env wallet_id
            (snd (delete_inventory test_env (test_ctx []) user_a wallet_id store_recovered))
           = msg 404 ''Item not found''"
    by simp_all
  with u k r show ?thesis by (intro conjI)
qed

text \<open>The claim as stated fails: the store holds the wallet under an ObjectId and another
  item of A under the same text as a string; A deletes by that identifier, one of the two
  is removed, and the lookup of the identifier finds the other.\<close>

theorem delete_cascade_counterexample:
  "unique_ids (items store_twin)
   \<and> find_item test_env wallet_id (items store_twin) = Some wallet
   \<and> fst (delete_inventory test_env (test_ctx []) user_a wallet_id store_twin)
       = msg 200 ''Item deleted successfully''
   \<and> get_inventory test_env wallet_id
        (snd (delete_inventory test_env (test_ctx []) user_a wallet_id store_twin))
       = Reply 200 ((''_id'', JStr wallet_id) # snd wallet_twin)"
  by (simp add: unique_ids_def scenario model delete_inventory_def get_inventory_def)

subsection \<open>C5: a bearer token that does not verify\<close>

text \<open>
  Claim C5, as the code has it. When the request carries a bearer token and its
  verification fails, \<^verbatim>\<open>protect\<close> writes nothing and answers what the session cookie
  decides: 401 when the cookie is absent or empty, 401 when the session token does not
  verify, and also 401 when it verifies but its \<^verbatim>\<open>userId\<close> is not accepted by
  \<^verbatim>\<open>new ObjectId\<close>; 404 when it verifies and no user is stored under the ObjectId of its
  \<^verbatim>\<open>userId\<close>, or, without a \<^verbatim>\<open>userId\<close>, when no user has its \<^verbatim>\<open>uid\<close>, or when it has
  neither.
\<close>

theorem protect_falls_through:
  assumes "authorization req = Some a" and "take 7 a = ''Bearer ''"
      and "bearer_token a = Some t" and "verifyIdToken e t = None"
  shows "protect e c req st = (protect_jwt e req st, st)
     \<and> (cookie_token req = None \<or> cookie_token req = Some [] \<longrightarrow>
          fst (protect e c req st) = Inl (msg 401 ''Not authorized, no token''))
     \<and> (\<forall>tok. cookie_token req = Some tok \<and> tok \<noteq> [] \<and> jwt_verify e tok = None \<longrightarrow>
          fst (protect e c req st) = Inl (msg 401 ''Not authorized, token failed''))
     \<and> (\<forall>tok d. cookie_token req = Some tok \<and> tok \<noteq> [] \<and> jwt_verify e tok = Some d
            \<and> truthy (getf d ''userId'') \<and> new_ObjectId e (getf d ''userId'') = None \<longrightarrow>
          fst (protect e c req st) = Inl (msg 401 ''Not authorized, token failed''))
     \<and> (\<forall>tok d oid. cookie_token req = Some tok \<and> tok \<noteq> [] \<and> jwt_verify e tok = Some d
            \<and> truthy (getf d ''userId'') \<and> new_ObjectId e (getf d ''userId'') = Some oid
            \<and> oid \<notin> set (map fst (users st)) \<longrightarrow>
          fst (protect e c req st) = Inl (msg 404 ''User not found''))
     \<and> (\<forall>tok d. cookie_token req = Some tok \<and> tok \<noteq> [] \<and> jwt_verify e tok = Some d
            \<and> \<not> truthy (getf d ''userId'') \<and> truthy (getf d ''uid'')
            \<and> \<not> list_ex (\<lambda>u. matches (getf (snd u) ''uid'') (getf d ''uid'')) (users st) \<longrightarrow>
          fst (protect e c req st) = Inl (msg 404 ''User not found''))
     \<and> (\<forall>tok d. cookie_token req = Some tok \<and> tok \<noteq> [] \<and> jwt_verify e tok = Some d
            \<and> \<not> truthy (getf d ''userId'') \<and> \<not> truthy (getf d ''uid'') \<longrightarrow>
          fst (protect e c req st) = Inl (msg 404 ''User not found''))"
proof -
  have p: "protect e c req st = (protect_jwt e req st, st)"
    by (simp add: protect_def protect_firebase_fails[OF assms(1,3,4)])
  have none: "\<And>P xs. \<not> list_ex P xs \<Longrightarrow> List.find P xs = None"
    by (simp add: find_None_iff list_ex_iff)
  have byid: "\<And>oid. oid \<notin> set (map fst (users st)) \<Longrightarrow>
                List.find (\<lambda>u. fst u = oid) (users st) = None"
    by (force simp: find_None_iff image_iff)
  show ?thesis
    unfolding p
    by (auto simp: protect_jwt_def findOne_def none byid)
qed

text \<open>The bearer token is refused; the cookie is absent, forged, names a user by an
  identifier nobody has, names a user by a \<^verbatim>\<open>uid\<close> nobody has.\<close>

theorem protect_falls_through_witness:
  "authorization (bad_bearer\<lparr>cookie_token := Some ''jwt-userId''\<rparr>) = Some ''Bearer expired''
   \<and> bearer_token ''Bearer expired'' = Some ''expired''
   \<and> verifyIdToken test_env ''expired'' = None
   \<and> protect test_env (test_ctx []) bad_bearer store_wallet
       = (Inl (msg 401 ''Not authorized, no token''), store_wallet)
   \<and> protect test_env (test_ctx []) (bad_bearer\<lparr>cookie_token := Some ''forged''\<rparr>) store_wallet
       = (Inl (msg 401 ''Not authorized, token failed''), store_wallet)
   \<and> protect test_env (test_ctx []) (bad_bearer\<lparr>cookie_token := Some ''jwt-userId''\<rparr>) store_wallet
       = (Inl (msg 404 ''User not found''), store_wallet)
   \<and> protect test_env (test_ctx []) (bad_bearer\<lparr>cookie_token := Some ''jwt-uid''\<rparr>) store_wallet
       = (Inl (msg 404 ''User not found''), store_wallet)"
proof -
  have a: "\<And>x. authorization (bad_bearer\<lparr>cookie_token := x\<rparr>) = Some ''Bearer expired''"
          "authorization bad_bearer = Some ''Bearer expired''"
    by (simp_all add: bad_bearer_def)
  have b: "take 7 ''Bearer expired'' = ''Bearer ''" by simp
  have t: "bearer_token ''Bearer expired'' = Some ''expired''"
    by (simp add: bearer_token_def)
  have v: "verifyIdToken test_env ''expired'' = None"
    by (simp add: test_env_def)
  have j: "jwt_verify test_env ''forged'' = None"
          "jwt_verify test_env ''jwt-userId'' = Some [(''userId'', JStr ''0000000000000000000000ff'')]"
          "jwt_verify test_env ''jwt-uid'' = Some [(''uid'', JStr ''uid-z'')]"
    by (simp_all add: test_env_def test_jwt_def)
  have u: "new_ObjectId test_env (getf [(''userId'', JStr ''0000000000000000000000ff'')] ''userId'')
             = Some (ObjId ''0000000000000000000000ff'')"
          "ObjId ''0000000000000000000000ff'' \<notin> set (map fst (users store_wallet))"
          "\<not> list_ex (\<lambda>u. matches (getf (snd u) ''uid'') (getf [(''uid'', JStr ''uid-z'')] ''uid''))
               (users store_wallet)"
    by (simp_all add: scenario model)
  have g: "truthy (getf [(''userId'', JStr ''0000000000000000000000ff'')] ''userId'')"
          "\<not> truthy (getf [(''uid'', JStr ''uid-z'')] ''userId'')"
          "truthy (getf [(''uid'', JStr ''uid-z'')] ''uid'')"
    by (simp_all add: getf_def)
  have c: "cookie_token bad_bearer = None"
          "\<And>x. cookie_token (bad_bearer\<lparr>cookie_token := x\<rparr>) = x"
    by (simp_all add: bad_bearer_def)
  note th = protect_falls_through[OF _ b t v, of _ "test_ctx []" store_wallet]
  from th[OF a(2)] c(1)
  have 1: "protect test_env (test_ctx []) bad_bearer store_wallet
       = (Inl (msg 401 ''Not authorized, no token''), store_wallet)"
    by auto
  from th[OF a(1), of "Some ''forged''"] c(2) j(1)
  have 2: "protect test_env (test_ctx []) (bad_bearer\<lparr>cookie_token := Some ''forged''\<rparr>) store_wallet
       = (Inl (msg 401 ''Not authorized, token failed''), store_wallet)"
    by auto
  from th[OF a(1), of "Some ''jwt-userId''"] c(2) j(2) u(1,2) g(1)
  have 3: "protect test_env (test_ctx []) (bad_bearer\<lparr>cookie_token := Some ''jwt-userId''\<rparr>) store_wallet
       = (Inl (msg 404 ''User not found''), store_wallet)"
    by auto
  from th[OF a(1), of "Some ''jwt-uid''"] c(2) j(3) u(3) g(2,3)
  have 4: "protect test_env (test_ctx []) (bad_bearer\<lparr>cookie_token := Some ''jwt-uid''\<rparr>) store_wallet
       = (Inl (msg 404 ''User not found''), store_wallet)"
    by auto
  from a(1) t v 1 2 3 4 show ?thesis by (intro conjI)
qed

text \<open>The claim as stated fails: the session token verifies, no user is stored under
  \<^verbatim>\<open>nobody\<close>, and the answer is 401, not 404.\<close>

theorem protect_falls_through_counterexample:
  "jwt_verify test_env ''jwt-nobody'' = Some [(''userId'', JStr ''nobody'')]
   \<and> users store_wallet = [user_a, user_b, user_c]
   \<and> protect test_env (test_ctx []) (bad_bearer\<lparr>cookie_token := Some ''jwt-nobody''\<rparr>) store_wallet
       = (Inl (msg 401 ''Not authorized, token failed''), store_wallet)"
  by (simp add: scenario model bad_bearer_def protect_def protect_firebase_def bearer_token_def
        protect_jwt_def)

subsection \<open>C6: the allowlist of the item update\<close>

text \<open>
  Claim C6. After an authorized \<^verbatim>\<open>PATCH /inventory/:id\<close> on an existing item, the stored
  item has, in every field outside the allowlist other than \<^verbatim>\<open>updatedAt\<close>, the value it
  had before; so has every allowlisted field that the body does not carry; an allowlisted
  field of the body is written (the date as a Date). No other item, no user and no
  recovery changes, and no identifier does.
\<close>

theorem patch_inventory_allowlist:
  assumes "find_item_patch e (clean_id ident) (items st) = Some item"
      and "NODE_ENV e = Some ''development''
           \<or> strict_eq (getf (snd item) ''contactEmail'') (getf (snd user) ''email'')"
  shows "\<exists>d. findOne (\<lambda>x. fst x = fst item) (items (snd (patch_inventory e c user ident body st)))
               = Some (fst item, d)
     \<and> (\<forall>k. k \<notin> set allowedFields \<and> k \<noteq> ''updatedAt'' \<longrightarrow> getf d k = getf (snd item) k)
     \<and> (\<forall>k\<in>set allowedFields. getf body k = JUndefined \<longrightarrow> getf d k = getf (snd item) k)
     \<and> (\<forall>k\<in>set allowedFields. getf body k \<noteq> JUndefined \<longrightarrow>
           getf d k = (if k = ''date'' then JDate (new_Date e (getf body ''date''))
                       else getf body k))
     \<and> filter (\<lambda>x. fst x \<noteq> fst item) (items (snd (patch_inventory e c user ident body st)))
         = filter (\<lambda>x. fst x \<noteq> fst item) (items st)
     \<and> map fst (items (snd (patch_inventory e c user ident body st))) = map fst (items st)
     \<and> users (snd (patch_inventory e c user ident body st)) = users st
     \<and> recoveries (snd (patch_inventory e c user ident body st)) = recoveries st"
proof (intro exI conjI)
  show "findOne (\<lambda>x. fst x = fst item) (items (snd (patch_inventory e c user ident body st)))
               = Some (fst item, set_fields (updateData e c body) (snd item))"
    by (rule patch_inventory_stored[OF assms])
  show "\<forall>k. k \<notin> set allowedFields \<and> k \<noteq> ''updatedAt'' \<longrightarrow>
          getf (set_fields (updateData e c body) (snd item)) k = getf (snd item) k"
    by (simp add: getf_updateData)
  show "\<forall>k\<in>set allowedFields. getf body k = JUndefined \<longrightarrow>
          getf (set_fields (updateData e c body) (snd item)) k = getf (snd item) k"
    using updatedAt_not_allowed by (auto simp: getf_updateData)
  show "\<forall>k\<in>set allowedFields. getf body k \<noteq> JUndefined \<longrightarrow>
          getf (set_fields (updateData e c body) (snd item)) k
            = (if k = ''date'' then JDate (new_Date e (getf body ''date'')) else getf body k)"
    by (simp add: getf_updateData)
  show "filter (\<lambda>x. fst x \<noteq> fst item) (items (snd (patch_inventory e c user ident body st)))
         = filter (\<lambda>x. fst x \<noteq> fst item) (items st)"
    by (simp add: patch_inventory_authorized[OF assms] filter_other_updateOne)
  show "map fst (items (snd (patch_inventory e c user ident body st))) = map fst (items st)"
    by (simp add: patch_inventory_authorized[OF assms] map_fst_updateOne)
  show "users (snd (patch_inventory e c user ident body st)) = users st"
    by (simp add: patch_inventory_authorized[OF assms])
  show "recoveries (snd (patch_inventory e c user ident body st)) = recoveries st"
    by (simp add: patch_inventory_authorized[OF assms])
qed

text \<open>A, the owner, sends a new title together with \<^verbatim>\<open>contactEmail\<close> and
  \<^verbatim>\<open>createdAt\<close>: the title is written, the two others are not.\<close>

theorem patch_inventory_allowlist_witness:
  "find_item_patch test_env (clean_id wallet_id) (items store_wallet) = Some wallet
   \<and> strict_eq (getf (snd wallet) ''contactEmail'') (getf (snd user_a) ''email'')
   \<and> (\<exists>d. findOne (\<lambda>x. fst x = fst wallet)
             (items (snd (patch_inventory test_env (test_ctx []) user_a wallet_id patch_mixed
                            store_wallet)))
           = Some (fst wallet, d)
         \<and> getf d ''title'' = JStr ''Purse''
         \<and> getf d ''contactEmail'' = JStr ''a@x.com''
         \<and> getf d ''createdAt'' = JDate (Some 1704100000000)
         \<and> getf d ''status'' = JStr ''not-recovered'')"
proof -
  have f: "find_item_patch test_env (clean_id wallet_id) (items store_wallet) = Some wallet"
    by (simp add: scenario model)
  have s: "strict_eq (getf (snd wallet) ''contactEmail'') (getf (snd user_a) ''email'')"
    by (simp add: scenario model)
  from patch_inventory_allowlist[OF f disjI2[OF s], of "test_ctx []" patch_mixed]
  obtain d where d:
    "findOne (\<lambda>x. fst x = fst wallet)
       (items (snd (patch_inventory test_env (test_ctx []) user_a wallet_id patch_mixed store_wallet)))
     = Some (fst wallet, d)"
    "\<forall>k. k \<notin> set allowedFields \<and> k \<noteq> ''updatedAt'' \<longrightarrow> getf d k = getf (snd wallet) k"
    "\<forall>k\<in>set allowedFields. getf patch_mixed k = JUndefined \<longrightarrow> getf d k = getf (snd wallet) k"
    "\<forall>k\<in>set allowedFields. getf patch_mixed k \<noteq> JUndefined \<longrightarrow>
       getf d k = (if k = ''date'' then JDate (new_Date test_env (getf patch_mixed ''date''))
                   else getf patch_mixed k)"
    by blast
  from d(4) have "getf d ''title'' = JStr ''Purse''"
    by (simp add: allowedFields_def patch_mixed_def getf_def)
  moreover from d(2) have "getf d ''contactEmail'' = JStr ''a@x.com''"
    by (simp add: allowedFields_def wallet_def getf_def)
  moreover from d(2) have "getf d ''createdAt'' = JDate (Some 1704100000000)"
    by (simp add: allowedFields_def wallet_def getf_def)
  moreover from d(3) have "getf d ''status'' = JStr ''not-recovered''"
    by (simp add: allowedFields_def patch_mixed_def wallet_def getf_def)
  ultimately show ?thesis using f s d(1) by blast
qed

subsection \<open>C7: the update of a recovery\<close>

text \<open>
  Claim C7, as the code has it. \<^verbatim>\<open>PATCH /recoveries/:id\<close> keeps every identifier and, in
  every recovery, every field other than \<^verbatim>\<open>recoveryStatus\<close>, \<^verbatim>\<open>notes\<close>,
  \<^verbatim>\<open>recoveredLocation\<close> and \<^verbatim>\<open>recoveredDate\<close>; users and items are untouched. When the
  body has none of the four fields the call answers 400 and changes nothing. When the
  identifier is a valid ObjectId, the body has one of the four fields and no recovery is
  stored under that ObjectId, the call answers 404 "Recovery not found" and changes
  nothing. (An identifier that is not a valid ObjectId is answered 400 before any lookup.)
\<close>

theorem patch_recoveries_fields:
  "list_all2 (\<lambda>x y. fst x = fst y
                \<and> (\<forall>k. k \<notin> set recoveryAllowedFields \<longrightarrow> getf (snd x) k = getf (snd y) k))
      (recoveries (snd (patch_recoveries e ident body st))) (recoveries st)
   \<and> users (snd (patch_recoveries e ident body st)) = users st
   \<and> items (snd (patch_recoveries e ident body st)) = items st
   \<and> (filteredData body = [] \<longrightarrow>
        snd (patch_recoveries e ident body st) = st
        \<and> fst (patch_recoveries e ident body st) =
            (if ObjectId_isValid e ident then msg 400 ''No valid fields to update''
             else msg 400 ''Invalid recovery ID''))
   \<and> (ObjectId_isValid e ident \<and> filteredData body \<noteq> []
        \<and> \<not> list_ex (\<lambda>x. Some (fst x) = new_ObjectId e (JStr ident)) (recoveries st) \<longrightarrow>
        patch_recoveries e ident body st = (msg 404 ''Recovery not found'', st))"
proof (intro conjI impI)
  let ?R = "\<lambda>x y. fst x = fst y
              \<and> (\<forall>k. k \<notin> set recoveryAllowedFields \<longrightarrow> getf (snd x) k = getf (snd y) k)"
  let ?q = "\<lambda>x. Some (fst x) = new_ObjectId e (JStr ident)"
  have keep: "\<And>d k. k \<notin> set recoveryAllowedFields \<Longrightarrow>
                getf (set_fields (filteredData body) d) k = getf d k"
    using fst_filteredData[of body] by (intro getf_set_fields_other) auto
  have upd: "list_all2 ?R (updateOne ?q (set_fields (filteredData body)) (recoveries st))
               (recoveries st)"
    by (rule list_all2_updateOne) (simp_all add: keep)
  have same: "list_all2 ?R (recoveries st) (recoveries st)"
    by (simp add: list_all2_refl)
  show "list_all2 ?R (recoveries (snd (patch_recoveries e ident body st))) (recoveries st)"
    using upd same by (simp add: patch_recoveries_def Let_def)
  show "users (snd (patch_recoveries e ident body st)) = users st"
    by (simp add: patch_recoveries_def Let_def)
  show "items (snd (patch_recoveries e ident body st)) = items st"
    by (simp add: patch_recoveries_def Let_def)
next
  assume "filteredData body = []"
  then show "snd (patch_recoveries e ident body st) = st"
    by (simp add: patch_recoveries_def)
next
  assume "filteredData body = []"
  then show "fst (patch_recoveries e ident body st) =
      (if ObjectId_isValid e ident then msg 400 ''No valid fields to update''
       else msg 400 ''Invalid recovery ID'')"
    by (simp add: patch_recoveries_def)
next
  assume "ObjectId_isValid e ident \<and> filteredData body \<noteq> []
        \<and> \<not> list_ex (\<lambda>x. Some (fst x) = new_ObjectId e (JStr ident)) (recoveries st)"
  then show "patch_recoveries e ident body st = (msg 404 ''Recovery not found'', st)"
    by (simp add: patch_recoveries_def Let_def matchedCount_def)
qed

text \<open>On the store with the recovery of B: a body without any of the four fields, and
  an ObjectId under which nothing is stored.\<close>

theorem patch_recoveries_fields_witness:
  "filteredData [(''itemId'', JStr ''x'')] = []
   \<and> patch_recoveries test_env ''0000000000000000000000e1'' [(''itemId'', JStr ''x'')] store_recovered
       = (msg 400 ''No valid fields to update'', store_recovered)
   \<and> ObjectId_isValid test_env ''0000000000000000000000e9''
   \<and> filteredData [(''notes'', JStr ''seen'')] \<noteq> []
   \<and> patch_recoveries test_env ''0000000000000000000000e9'' [(''notes'', JStr ''seen'')] store_recovered
       = (msg 404 ''Recovery not found'', store_recovered)"
proof -
  have a: "filteredData [(''itemId'', JStr ''x'')] = []"
    by (simp add: filteredData_def recoveryAllowedFields_def)
  have v: "ObjectId_isValid test_env ''0000000000000000000000e1''"
          "ObjectId_isValid test_env ''0000000000000000000000e9''"
    by (simp_all add: scenario model)
  have n: "filteredData [(''notes'', JStr ''seen'')] \<noteq> []"
    by (simp add: filteredData_def recoveryAllowedFields_def)
  have m: "\<not> list_ex (\<lambda>x. Some (fst x) = new_ObjectId test_env (JStr ''0000000000000000000000e9''))
             (recoveries store_recovered)"
    by (simp add: scenario2 model)
  from patch_recoveries_fields[of test_env "''0000000000000000000000e1''" "[(''itemId'', JStr ''x'')]"
         store_recovered]
       patch_recoveries_fields[of test_env "''0000000000000000000000e9''" "[(''notes'', JStr ''seen'')]"
         store_recovered]
       a v n m
  show ?thesis by (simp add: prod_eq_iff)
qed

text \<open>The claim as stated fails: no recovery exists, the body carries \<^verbatim>\<open>notes\<close>, and the
  answer for an identifier that is not an ObjectId is 400, not 404.\<close>

theorem patch_recoveries_fields_counterexample:
  "filteredData [(''notes'', JStr ''seen'')] \<noteq> []
   \<and> recoveries store_wallet = []
   \<and> patch_recoveries test_env ''legacy-1'' [(''notes'', JStr ''seen'')] store_wallet
       = (msg 400 ''Invalid recovery ID'', store_wallet)
   \<and> msg 400 ''Invalid recovery ID'' \<noteq> msg 404 ''Recovery not found''"
  by (simp add: scenario model patch_recoveries_def filteredData_def recoveryAllowedFields_def)

subsection \<open>C8: recovering an item a second time\<close>

text \<open>
  Claim C8. \<^verbatim>\<open>POST /inventory/:id/recover\<close> never reads the status of the item. Whatever
  the status is, and so for an item that is already recovered, a claim by a principal whose
  email is not the item's \<^verbatim>\<open>contactEmail\<close>, with both claim fields present and a date that
  parses, is answered 200 once the transaction commits; it appends a recovery that
  references the item, so the item has one more recovery than before.
\<close>

theorem recover_again:
  assumes "find_item e ident (items st) = Some item"
      and "truthy (getf body ''recoveredLocation'')" and "truthy (getf body ''recoveredDate'')"
      and "\<not> strict_eq (getf (snd user) ''email'') (getf (snd item) ''contactEmail'')"
      and "new_Date e (getf body ''recoveredDate'') = Some t"
      and "new_ObjectId e (id_val (fst user)) = Some uid"
      and "commit c" and "ObjId (fresh c) \<notin> set (map fst (recoveries st))"
  shows "code (fst (post_recover e c user ident body st)) = 200
     \<and> recoveries (snd (post_recover e c user ident body st))
         = recoveries st @ [(ObjId (fresh c), recoveryData e c user item body uid t)]
     \<and> references (ObjId (fresh c), recoveryData e c user item body uid t) (fst item)
     \<and> length (referencing (fst item) (recoveries (snd (post_recover e c user ident body st))))
         = Suc (length (referencing (fst item) (recoveries st)))"
  by (simp add: post_recover_ok[OF assms] references_recoveryData referencing_def)

text \<open>The wallet is recovered by B already; C claims it as well, and it has two
  recoveries.\<close>

theorem recover_again_witness:
  "find_item test_env wallet_id (items store_recovered) = Some wallet_recovered
   \<and> is_recovered wallet_recovered
   \<and> length (referencing (fst wallet_recovered) (recoveries store_recovered)) = 1
   \<and> code (fst (post_recover test_env (test_ctx ''0000000000000000000000e2'') user_c wallet_id
                  claim_b store_recovered)) = 200
   \<and> length (referencing (fst wallet_recovered)
        (recoveries (snd (post_recover test_env (test_ctx ''0000000000000000000000e2'') user_c
                            wallet_id claim_b store_recovered)))) = 2"
proof -
  have f: "find_item test_env wallet_id (items store_recovered) = Some wallet_recovered"
    by (simp add: scenario2 model)
  have r: "is_recovered wallet_recovered"
    by (simp add: is_recovered_def wallet_recovered_def wallet_def set_fields_def getf_def nul_def)
  have one: "length (referencing (fst wallet_recovered) (recoveries store_recovered)) = 1"
    by (simp add: referencing_def references_def scenario2 model)
  have h: "truthy (getf claim_b ''recoveredLocation'')" "truthy (getf claim_b ''recoveredDate'')"
      "\<not> strict_eq (getf (snd user_c) ''email'') (getf (snd wallet_recovered) ''contactEmail'')"
      "new_Date test_env (getf claim_b ''recoveredDate'') = Some 1704412800000"
      "new_ObjectId test_env (id_val (fst user_c)) = Some (fst user_c)"
      "commit (test_ctx ''0000000000000000000000e2'')"
      "ObjId (fresh (test_ctx ''0000000000000000000000e2'')) \<notin> set (map fst (recoveries store_recovered))"
    by (simp_all add: scenario2 model)
  note again = recover_again[OF f h]
  from again have c: "code (fst (post_recover test_env (test_ctx ''0000000000000000000000e2'') user_c
                  wallet_id claim_b store_recovered)) = 200"
    by (rule conjunct1)
  from again have "length (referencing (fst wallet_recovered)
        (recoveries (snd (post_recover test_env (test_ctx ''0000000000000000000000e2'') user_c
                            wallet_id claim_b store_recovered))))
      = Suc (length (referencing (fst wallet_recovered) (recoveries store_recovered)))"
    by (rule conjunct2[THEN conjunct2, THEN conjunct2])
  with one have l: "length (referencing (fst wallet_recovered)
        (recoveries (snd (post_recover test_env (test_ctx ''0000000000000000000000e2'') user_c
                            wallet_id claim_b store_recovered)))) = 2"
    by simp
  from f r one c l show ?thesis by (intro conjI)
qed

subsection \<open>C9: recovery identifiers that are not ObjectIds\<close>

text \<open>
  Claim C9. When the identifier of the path is not a valid ObjectId,
  \<^verbatim>\<open>PATCH /recoveries/:id\<close> answers 400 "Invalid recovery ID" and writes nothing, whatever
  the store holds. The handler only ever queries by ObjectId: the recoveries stored under
  a legacy string identifier are the same after every call, and an answer 200 means that a
  recovery stored under the ObjectId of the identifier exists.
\<close>

theorem patch_recoveries_invalid_id:
  "(\<not> ObjectId_isValid e ident \<longrightarrow>
      patch_recoveries e ident body st = (msg 400 ''Invalid recovery ID'', st))
   \<and> filter is_legacy (recoveries (snd (patch_recoveries e ident body st)))
       = filter is_legacy (recoveries st)
   \<and> (code (fst (patch_recoveries e ident body st)) = 200 \<longrightarrow>
        (\<exists>h d. oid_hex e ident = Some h \<and> (ObjId h, d) \<in> set (recoveries st)))"
proof (intro conjI impI)
  assume "\<not> ObjectId_isValid e ident"
  then show "patch_recoveries e ident body st = (msg 400 ''Invalid recovery ID'', st)"
    by (simp add: patch_recoveries_def)
next
  let ?q = "\<lambda>x. Some (fst x) = new_ObjectId e (JStr ident)"
  have "\<And>x d. ?q x \<Longrightarrow> \<not> is_legacy x \<and> \<not> is_legacy (fst x, d)"
    by (auto simp: new_ObjectId_str is_legacy_def)
  then have "filter is_legacy (updateOne ?q (set_fields (filteredData body)) (recoveries st))
             = filter is_legacy (recoveries st)"
    by (rule filter_updateOne)
  then show "filter is_legacy (recoveries (snd (patch_recoveries e ident body st)))
             = filter is_legacy (recoveries st)"
    by (simp add: patch_recoveries_def Let_def)
next
  assume ok: "code (fst (patch_recoveries e ident body st)) = 200"
  then have m: "list_ex (\<lambda>x. Some (fst x) = new_ObjectId e (JStr ident)) (recoveries st)"
    by (auto simp: patch_recoveries_def Let_def msg_def matchedCount_def split: if_splits)
  then obtain x where x: "x \<in> set (recoveries st)" "Some (fst x) = new_ObjectId e (JStr ident)"
    by (auto simp: list_ex_iff)
  then obtain h where h: "oid_hex e ident = Some h" "fst x = ObjId h"
    by (auto simp: new_ObjectId_str)
  from x(1) h(2) have "(ObjId h, snd x) \<in> set (recoveries st)"
    by (metis prod.collapse)
  with h(1) show "\<exists>h d. oid_hex e ident = Some h \<and> (ObjId h, d) \<in> set (recoveries st)"
    by blast
qed

text \<open>The recovery stored as \<^verbatim>\<open>legacy-1\<close> is asked for by that very identifier.\<close>

theorem patch_recoveries_invalid_id_witness:
  "\<not> ObjectId_isValid test_env ''legacy-1''
   \<and> patch_recoveries test_env ''legacy-1'' [(''notes'', JStr ''seen'')] store_legacy
       = (msg 400 ''Invalid recovery ID'', store_legacy)
   \<and> legacy_recovery \<in> set (recoveries store_legacy)"
proof -
  have h: "\<not> ObjectId_isValid test_env ''legacy-1''"
    by (simp add: ObjectId_isValid_def test_env_def hex24_def)
  from patch_recoveries_invalid_id[of test_env "''legacy-1''" "[(''notes'', JStr ''seen'')]" store_legacy] h
  show ?thesis by (simp add: store_legacy_def)
qed

subsection \<open>C10: an update without any allowlisted field\<close>

text \<open>
  Claim C10. For every authorized \<^verbatim>\<open>PATCH /inventory/:id\<close> on an existing item the answer
  is 200 "Item updated successfully" and the stored item carries the time of the call as
  \<^verbatim>\<open>updatedAt\<close>. When the body has no allowlisted field at all, the call is not refused:
  the update is that of \<^verbatim>\<open>updatedAt\<close> alone, and every other field keeps its value.
\<close>

theorem patch_inventory_refreshes_updatedAt:
  assumes "find_item_patch e (clean_id ident) (items st) = Some item"
      and "NODE_ENV e = Some ''development''
           \<or> strict_eq (getf (snd item) ''contactEmail'') (getf (snd user) ''email'')"
  shows "code (fst (patch_inventory e c user ident body st)) = 200
     \<and> getf (json (fst (patch_inventory e c user ident body st))) ''message''
         = JStr ''Item updated successfully''
     \<and> (\<exists>d. findOne (\<lambda>x. fst x = fst item) (items (snd (patch_inventory e c user ident body st)))
               = Some (fst item, d)
            \<and> getf d ''updatedAt'' = JDate (Some (clock c 0))
            \<and> ((\<forall>f\<in>set allowedFields. getf body f = JUndefined) \<longrightarrow>
                 d = set_fields [(''updatedAt'', JDate (Some (clock c 0)))] (snd item)
                 \<and> (\<forall>k. k \<noteq> ''updatedAt'' \<longrightarrow> getf d k = getf (snd item) k)))"
proof (intro conjI exI)
  show "code (fst (patch_inventory e c user ident body st)) = 200"
    by (simp add: patch_inventory_authorized[OF assms])
  show "getf (json (fst (patch_inventory e c user ident body st))) ''message''
         = JStr ''Item updated successfully''"
    by (simp add: patch_inventory_authorized[OF assms] getf_def)
  show "findOne (\<lambda>x. fst x = fst item) (items (snd (patch_inventory e c user ident body st)))
               = Some (fst item, set_fields (updateData e c body) (snd item))"
    by (rule patch_inventory_stored[OF assms])
  show "getf (set_fields (updateData e c body) (snd item)) ''updatedAt'' = JDate (Some (clock c 0))"
    by (simp add: getf_updateData updatedAt_not_allowed)
  show "(\<forall>f\<in>set allowedFields. getf body f = JUndefined) \<longrightarrow>
          set_fields (updateData e c body) (snd item)
            = set_fields [(''updatedAt'', JDate (Some (clock c 0)))] (snd item)
          \<and> (\<forall>k. k \<noteq> ''updatedAt'' \<longrightarrow>
                getf (set_fields (updateData e c body) (snd item)) k = getf (snd item) k)"
  proof (intro impI conjI)
    assume h: "\<forall>f\<in>set allowedFields. getf body f = JUndefined"
    show "set_fields (updateData e c body) (snd item)
            = set_fields [(''updatedAt'', JDate (Some (clock c 0)))] (snd item)"
      by (simp add: updateData_empty[OF h])
    show "\<forall>k. k \<noteq> ''updatedAt'' \<longrightarrow>
            getf (set_fields (updateData e c body) (snd item)) k = getf (snd item) k"
      using h by (auto simp: getf_updateData)
  qed
qed

text \<open>A, the owner, sends a body whose only field is outside the allowlist.\<close>

theorem patch_inventory_refreshes_updatedAt_witness:
  "find_item_patch test_env (clean_id wallet_id) (items store_wallet) = Some wallet
   \<and> strict_eq (getf (snd wallet) ''contactEmail'') (getf (snd user_a) ''email'')
   \<and> code (fst (patch_inventory test_env (test_ctx []) user_a wallet_id
                  [(''contactEmail'', JStr ''b@x.com'')] store_wallet)) = 200
   \<and> findOne (\<lambda>x. fst x = fst wallet)
        (items (snd (patch_inventory test_env (test_ctx []) user_a wallet_id
                       [(''contactEmail'', JStr ''b@x.com'')] store_wallet)))
      = Some (fst wallet, set_fields [(''updatedAt'', JDate (Some 1704500000000))] (snd wallet))"
proof -
  have f: "find_item_patch test_env (clean_id wallet_id) (items store_wallet) = Some wallet"
    by (simp add: scenario model)
  have s: "strict_eq (getf (snd wallet) ''contactEmail'') (getf (snd user_a) ''email'')"
    by (simp add: scenario model)
  have n: "\<forall>f\<in>set allowedFields. getf [(''contactEmail'', JStr ''b@x.com'')] f = JUndefined"
    by (simp add: allowedFields_def getf_def)
  from patch_inventory_refreshes_updatedAt[OF f disjI2[OF s], of "test_ctx []"
         "[(''contactEmail'', JStr ''b@x.com'')]"] n f s
  show ?thesis by (auto simp: test_ctx_def)
qed

end
